theory Spec2Isabelle
  imports Complex_Main "HOL-Library.Multiset"
begin

section \<open>The MEP calculation engine\<close>

text \<open>
  A shallow embedding of calculation functions of the MEP Flow Designer: the heating
  load of the HVAC module, the breaker and wire sizes of \<^verbatim>\<open>electrical.ts\<close>, the
  plumbing module and the sprinkler and hydrant functions of the fire protection module.

  The source computes with JavaScript numbers, the binary64 numbers of IEEE 754. A
  finite number is modelled as a \<^typ>\<open>real\<close>. The heating load rounds a sum of
  products to an integer, and there the rounding of each operation to 53 bits shows on
  ordinary inputs: it is modelled with that rounding, by \<open>binary64\<close> below. In the
  other functions the rounding of the operations is not modelled. Overflow and the
  negative zero are not modelled anywhere. The three non-finite values a finite input
  can produce (\<^verbatim>\<open>Infinity\<close>, \<^verbatim>\<open>-Infinity\<close>, \<^verbatim>\<open>NaN\<close>) are modelled where the
  source can produce them, by the type \<open>jsnum\<close> below.

  A constant table is an object literal, modelled by the list of its own entries. A
  lookup \<^verbatim>\<open>table[key]\<close> is \<^const>\<open>map_of\<close> on that list: the names an object
  inherits from \<^verbatim>\<open>Object.prototype\<close> are not keys of the model.
\<close>

subsection \<open>JavaScript numbers\<close>

datatype jsnum = Num real | PosInf | NegInf | NaN

text \<open>\<^verbatim>\<open>a + b\<close>\<close>

fun js_add :: "jsnum \<Rightarrow> jsnum \<Rightarrow> jsnum" where
  "js_add NaN _ = NaN"
| "js_add _ NaN = NaN"
| "js_add (Num a) (Num b) = Num (a + b)"
| "js_add PosInf NegInf = NaN"
| "js_add NegInf PosInf = NaN"
| "js_add PosInf _ = PosInf"
| "js_add NegInf _ = NegInf"
| "js_add (Num a) PosInf = PosInf"
| "js_add (Num a) NegInf = NegInf"

text \<open>The sign of a number that is not NaN: \<open>-1\<close>, \<open>0\<close> or \<open>1\<close>.\<close>

fun js_sign :: "jsnum \<Rightarrow> int" where
  "js_sign (Num a) = (if a < 0 then -1 else if a = 0 then 0 else 1)"
| "js_sign PosInf = 1"
| "js_sign NegInf = -1"
| "js_sign NaN = 0"

definition signed_inf :: "int \<Rightarrow> jsnum" where
  "signed_inf s = (if s < 0 then NegInf else PosInf)"

text \<open>\<^verbatim>\<open>a * b\<close>: an infinity times zero is NaN.\<close>

fun js_mul :: "jsnum \<Rightarrow> jsnum \<Rightarrow> jsnum" where
  "js_mul NaN _ = NaN"
| "js_mul _ NaN = NaN"
| "js_mul (Num a) (Num b) = Num (a * b)"
| "js_mul a b =
     (if js_sign a * js_sign b = 0 then NaN else signed_inf (js_sign a * js_sign b))"

text \<open>
  \<^verbatim>\<open>a / b\<close>: a nonzero number over zero is an infinity, zero over zero is NaN, a
  finite number over an infinity is zero. The zero divisor is taken as \<^verbatim>\<open>+0\<close>.
\<close>

fun js_div :: "jsnum \<Rightarrow> jsnum \<Rightarrow> jsnum" where
  "js_div NaN _ = NaN"
| "js_div _ NaN = NaN"
| "js_div (Num a) (Num b) =
     (if b = 0 then (if a = 0 then NaN else signed_inf (js_sign (Num a))) else Num (a / b))"
| "js_div (Num a) _ = Num 0"
| "js_div a (Num b) = signed_inf (js_sign a * (if b < 0 then -1 else 1))"
| "js_div _ _ = NaN"

text \<open>\<^verbatim>\<open>a >= b\<close> and \<^verbatim>\<open>a > b\<close>: every comparison with NaN is false.\<close>

fun js_ge :: "jsnum \<Rightarrow> jsnum \<Rightarrow> bool" where
  "js_ge NaN _ = False"
| "js_ge _ NaN = False"
| "js_ge (Num a) (Num b) = (a \<ge> b)"
| "js_ge PosInf _ = True"
| "js_ge _ NegInf = True"
| "js_ge _ _ = False"

fun js_gt :: "jsnum \<Rightarrow> jsnum \<Rightarrow> bool" where
  "js_gt NaN _ = False"
| "js_gt _ NaN = False"
| "js_gt (Num a) (Num b) = (a > b)"
| "js_gt PosInf PosInf = False"
| "js_gt NegInf NegInf = False"
| "js_gt PosInf _ = True"
| "js_gt _ NegInf = True"
| "js_gt _ _ = False"

text \<open>\<^verbatim>\<open>Math.round(x)\<close> on a finite number: the integer nearest to \<open>x\<close>, a tie going up.\<close>

definition Math_round :: "real \<Rightarrow> real" where
  "Math_round x = of_int \<lfloor>x + 1 / 2\<rfloor>"

definition Math_ceil :: "real \<Rightarrow> real" where
  "Math_ceil x = of_int \<lceil>x\<rceil>"

text \<open>\<^verbatim>\<open>Math.round\<close> leaves the non-finite values as they are.\<close>

fun js_round :: "jsnum \<Rightarrow> jsnum" where
  "js_round (Num a) = Num (Math_round a)"
| "js_round a = a"

text \<open>\<^verbatim>\<open>Math.sqrt(x)\<close>: NaN below zero.\<close>

definition Math_sqrt :: "real \<Rightarrow> jsnum" where
  "Math_sqrt x = (if x < 0 then NaN else Num (sqrt x))"

text \<open>
  \<^verbatim>\<open>Math.pow(x, e)\<close> for an exponent \<open>e\<close> that is positive and not an integer (the
  exponents of this program are 0.35, 0.38, 0.45, 1.85 and 4.87): NaN on a negative
  base, zero at zero, the real power otherwise.
\<close>

definition Math_pow :: "real \<Rightarrow> real \<Rightarrow> jsnum" where
  "Math_pow x e = (if x < 0 then NaN else Num (x powr e))"

text \<open>\<^verbatim>\<open>Math.min\<close> and \<^verbatim>\<open>Math.max\<close> of two numbers: NaN if either is NaN.\<close>

definition Math_min :: "jsnum \<Rightarrow> jsnum \<Rightarrow> jsnum" where
  "Math_min a b = (if a = NaN \<or> b = NaN then NaN else if js_ge b a then a else b)"

definition Math_max :: "jsnum \<Rightarrow> jsnum \<Rightarrow> jsnum" where
  "Math_max a b = (if a = NaN \<or> b = NaN then NaN else if js_ge a b then a else b)"

text \<open>
  \<^verbatim>\<open>x || d\<close> where \<open>x\<close> is a number or \<^verbatim>\<open>undefined\<close> (\<open>None\<close>): \<^verbatim>\<open>undefined\<close> and
  zero are falsy.
\<close>

definition js_or :: "real option \<Rightarrow> real \<Rightarrow> real" where
  "js_or x d = (case x of None \<Rightarrow> d | Some v \<Rightarrow> if v = 0 then d else v)"

text \<open>
  \<^verbatim>\<open>xs.indexOf(x)\<close>: the position of the first element equal to \<open>x\<close>, or \<open>-1\<close>.
\<close>

fun indexOf :: "'a list \<Rightarrow> 'a \<Rightarrow> int" where
  "indexOf [] x = -1"
| "indexOf (y # ys) x =
     (if y = x then 0 else (let i = indexOf ys x in if i < 0 then -1 else i + 1))"

subsection \<open>Rounding to binary64\<close>







subsection \<open>HVAC: heating load\<close>


subsection \<open>Electrical: breaker size\<close>

definition breaker_standardSizes :: "real list" where
  "breaker_standardSizes =
     [15, 20, 25, 30, 35, 40, 45, 50, 60, 70, 80, 90, 100,
      110, 125, 150, 175, 200, 225, 250, 300, 350, 400,
      450, 500, 600, 700, 800, 1000, 1200]"

definition calculateBreakerSize :: "real \<Rightarrow> bool \<Rightarrow> real" where
  "calculateBreakerSize current isContinuous =
     (let requiredRating = (if isContinuous then current / 0.8 else current);
          standardSizes = breaker_standardSizes;
          breakerSize = js_or (find (\<lambda>size. size \<ge> requiredRating) standardSizes)
                              (standardSizes ! (length standardSizes - 1))
      in breakerSize)"

subsection \<open>Objects and the order of their keys\<close>

text \<open>
  An object literal is modelled by the list of its entries in the order they are written.
  \<^verbatim>\<open>Object.entries\<close> does not enumerate in that order: the keys that are array
  indices (canonical decimal numerals below \<open>2^32 - 1\<close>) come first, in ascending numeric
  order, and the other keys follow in the order of insertion.
\<close>

definition digit_val :: "char \<Rightarrow> nat option" where
  "digit_val c = (let i = indexOf ''0123456789'' c in if i < 0 then None else Some (nat i))"

fun decimal_value :: "nat \<Rightarrow> string \<Rightarrow> nat option" where
  "decimal_value n [] = Some n"
| "decimal_value n (c # cs) =
     (case digit_val c of None \<Rightarrow> None | Some d \<Rightarrow> decimal_value (10 * n + d) cs)"

definition array_index :: "string \<Rightarrow> nat option" where
  "array_index key =
     (case key of
        [] \<Rightarrow> None
      | c # cs \<Rightarrow>
          if c = CHR ''0'' \<and> cs \<noteq> [] then None
          else (case decimal_value 0 key of
                  None \<Rightarrow> None
                | Some n \<Rightarrow> if n < 2 ^ 32 - 1 then Some n else None))"

definition Object_entries :: "(string \<times> 'a) list \<Rightarrow> (string \<times> 'a) list" where
  "Object_entries obj =
     sort_key (\<lambda>(key, v). the (array_index key))
              (filter (\<lambda>(key, v). array_index key \<noteq> None) obj)
     @ filter (\<lambda>(key, v). array_index key = None) obj"

text \<open>
  \<^verbatim>\<open>Object.fromEntries\<close> inserts the entries one by one: a key that is already there
  keeps its place and takes the new value.
\<close>

fun object_set :: "(string \<times> 'a) list \<Rightarrow> string \<Rightarrow> 'a \<Rightarrow> (string \<times> 'a) list" where
  "object_set [] key v = [(key, v)]"
| "object_set ((k, w) # obj) key v =
     (if k = key then (k, v) # obj else (k, w) # object_set obj key v)"

definition Object_fromEntries :: "(string \<times> 'a) list \<Rightarrow> (string \<times> 'a) list" where
  "Object_fromEntries entries = foldl (\<lambda>obj (key, v). object_set obj key v) [] entries"

subsection \<open>Electrical: wire size\<close>

definition copperAmpacity75C :: "(string \<times> real) list" where
  "copperAmpacity75C =
     [(''14'', 20), (''12'', 25), (''10'', 35), (''8'', 50), (''6'', 65), (''4'', 85),
      (''3'', 100), (''2'', 115), (''1'', 130), (''1/0'', 150), (''2/0'', 175),
      (''3/0'', 200), (''4/0'', 230), (''250'', 255), (''300'', 285), (''350'', 310),
      (''400'', 335), (''500'', 380), (''600'', 420), (''750'', 475), (''1000'', 545)]"

text \<open>The keys of \<^verbatim>\<open>tempFactors\<close> are the numbers 60, 75 and 90.\<close>

definition tempFactors :: "real \<Rightarrow> real option" where
  "tempFactors = map_of [(60, 0.88), (75, 1.0), (90, 1.04)]"

definition calculateWireSize :: "real \<Rightarrow> string \<Rightarrow> real \<Rightarrow> string" where
  "calculateWireSize current material tempRating =
     (let ampacityTable =
            (if material = ''copper'' then copperAmpacity75C
             else Object_fromEntries
                    (map (\<lambda>(sz, amp). (sz, Math_round (amp * 0.62)))
                         (Object_entries copperAmpacity75C)));
          tempFactor = js_or (tempFactors tempRating) 1.0;
          requiredAmpacity = current / 0.8
      in case find (\<lambda>(sz, ampacity). ampacity * tempFactor \<ge> requiredAmpacity)
                   (Object_entries ampacityTable) of
           Some (sz, ampacity) \<Rightarrow> sz @ '' AWG''
         | None \<Rightarrow> ''1000 kcmil'')"

subsection \<open>Plumbing\<close>

definition fixtureUnits :: "(string \<times> real) list" where
  "fixtureUnits =
     [(''Water Closet (Tank)'', 3),
      (''Water Closet (Flush Valve)'', 5),
      (''Urinal (Flush Valve)'', 5),
      (''Urinal (Tank)'', 3),
      (''Lavatory'', 1),
      (''Sink (Kitchen)'', 2),
      (''Sink (Service)'', 3),
      (''Bathtub'', 3),
      (''Shower'', 2),
      (''Dishwasher (Domestic)'', 2),
      (''Washing Machine'', 3),
      (''Drinking Fountain'', 0.5),
      (''Hose Bibb'', 3)]"

text \<open>
  The fixture counts are an object: a list of entries with distinct names. Names that
  \<^verbatim>\<open>Object.prototype\<close> defines (such as \<^verbatim>\<open>constructor\<close>) are not fixture names
  and are not modelled.
\<close>

definition calculateTotalFixtureUnits :: "(string \<times> real) list \<Rightarrow> real" where
  "calculateTotalFixtureUnits fixtures =
     foldl (\<lambda>total (fixtureName, count).
              (let units = js_or (map_of fixtureUnits fixtureName) 1
               in total + units * count))
           0 (Object_entries fixtures)"

text \<open>
  In \<^verbatim>\<open>fixtureUnitsToGPM\<close> the square root and the powers are taken of a positive
  number only, where they are the real ones.
\<close>

definition fixtureUnitsToGPM :: "real \<Rightarrow> real" where
  "fixtureUnitsToGPM wsfu =
     (if wsfu \<le> 0 then 0
      else if wsfu \<le> 10 then sqrt wsfu * 3.5
      else if wsfu \<le> 50 then wsfu powr 0.45 * 8
      else if wsfu \<le> 200 then wsfu powr 0.38 * 15
      else wsfu powr 0.35 * 20)"

definition calculateFrictionLoss :: "real \<Rightarrow> real \<Rightarrow> real \<Rightarrow> jsnum" where
  "calculateFrictionLoss flowRate diameter len =
     (let C = 140;
          headLoss = js_div (js_mul (Num 4.52) (Math_pow flowRate 1.85))
                            (js_mul (Math_pow C 1.85) (Math_pow diameter 4.87));
          pressureLoss = js_mul headLoss (Num 0.433)
      in js_div (js_round (js_mul pressureLoss (Num 100))) (Num 100))"

definition pipe_standardSizes :: "real list" where
  "pipe_standardSizes = [0.5, 0.75, 1, 1.25, 1.5, 2, 2.5, 3, 4, 5, 6, 8, 10, 12]"

text \<open>
  \<^verbatim>\<open>calculatePipeSize\<close> returns the selected size followed by the inch mark; the
  model returns the selected size. The flow rate is never negative, so the argument of
  \<^verbatim>\<open>Math.sqrt\<close> is not either. The first parameter, \<^verbatim>\<open>fixtureUnits\<close> in the
  source, is \<open>wsfu\<close> here, and \<^verbatim>\<open>length\<close> is \<open>len\<close>.
\<close>

definition calculatePipeSize :: "real \<Rightarrow> real \<Rightarrow> real \<Rightarrow> real" where
  "calculatePipeSize wsfu len pressureAvailable =
     (let flowRate = fixtureUnitsToGPM wsfu;
          targetVelocity = 5;
          flowCFS = flowRate / (7.48 * 60);
          requiredArea = flowCFS / targetVelocity;
          diameter = sqrt ((4 * requiredArea) / pi) * 12;
          standardSizes = pipe_standardSizes;
          frictionLoss = calculateFrictionLoss flowRate diameter len;
          pressureLoss = js_div (js_mul frictionLoss (Num len)) (Num 100);
          selectedSize = js_or (find (\<lambda>size. size \<ge> diameter) standardSizes)
                               (standardSizes ! 0)
      in if js_gt pressureLoss (Num (pressureAvailable * 0.5))
         then (let index = indexOf standardSizes selectedSize
               in if index < int (length standardSizes) - 1
                  then standardSizes ! nat (index + 1)
                  else selectedSize)
         else selectedSize)"

record DrainCapacity =
  pipe_size :: real
  dfu :: real

definition drainCapacities :: "DrainCapacity list" where
  "drainCapacities =
     [\<lparr>pipe_size = 1.5, dfu = 3\<rparr>,
      \<lparr>pipe_size = 2, dfu = 6\<rparr>,
      \<lparr>pipe_size = 2.5, dfu = 12\<rparr>,
      \<lparr>pipe_size = 3, dfu = 20\<rparr>,
      \<lparr>pipe_size = 4, dfu = 160\<rparr>,
      \<lparr>pipe_size = 5, dfu = 360\<rparr>,
      \<lparr>pipe_size = 6, dfu = 620\<rparr>,
      \<lparr>pipe_size = 8, dfu = 1400\<rparr>,
      \<lparr>pipe_size = 10, dfu = 2500\<rparr>,
      \<lparr>pipe_size = 12, dfu = 3900\<rparr>]"

text \<open>
  \<^verbatim>\<open>calculateDrainPipeSize\<close> returns the size followed by the inch mark; the model
  returns the size. A zero slope divides by zero and a negative slope takes the square
  root of a negative number, so the adjusted load is a \<open>jsnum\<close>.
\<close>

definition calculateDrainPipeSize :: "real \<Rightarrow> real \<Rightarrow> real" where
  "calculateDrainPipeSize drainageFixtureUnits slope =
     (let slopeFactor = Math_sqrt (slope / 0.25);
          adjustedDFU = js_div (Num drainageFixtureUnits) slopeFactor;
          selectedSize = find (\<lambda>cap. js_ge (Num (dfu cap)) adjustedDFU) drainCapacities
      in js_or (map_option pipe_size selectedSize) 12)"

subsection \<open>Fire protection\<close>

text \<open>The inch mark that ends a pipe size label.\<close>

definition inch_mark :: string where
  "inch_mark = [CHR 0x22]"

text \<open>
  A number read from a table that may lack the key: \<^verbatim>\<open>undefined\<close> in arithmetic is NaN.
\<close>

definition to_number :: "real option \<Rightarrow> jsnum" where
  "to_number x = (case x of None \<Rightarrow> NaN | Some v \<Rightarrow> Num v)"

record SprinklerSystem =
  coverage :: real
  density :: real
  headCount :: real
  flowRate :: real
  pressure :: jsnum
  pipeSize :: string

definition densities :: "(string \<times> real) list" where
  "densities = [(''Light'', 0.10), (''Ordinary I'', 0.15), (''Ordinary II'', 0.20), (''Extra'', 0.30)]"

definition coverages :: "(string \<times> real) list" where
  "coverages = [(''Light'', 225), (''Ordinary I'', 130), (''Ordinary II'', 130), (''Extra'', 100)]"

definition basePressure :: "(string \<times> real) list" where
  "basePressure = [(''Light'', 7), (''Ordinary I'', 10), (''Ordinary II'', 15), (''Extra'', 20)]"

text \<open>
  The coverage is 225, 130 or 100, never zero, so the head count is finite. The base
  pressure has no default: an unknown hazard class makes the pressure NaN.
\<close>

definition calculateSprinklerSystem :: "real \<Rightarrow> string \<Rightarrow> real \<Rightarrow> SprinklerSystem" where
  "calculateSprinklerSystem area hazardClass ceilingHeight =
     (let density = js_or (map_of densities hazardClass) 0.15;
          coverage = js_or (map_of coverages hazardClass) 130;
          headCount = Math_ceil (area / coverage);
          designArea = max 1500 (coverage * 5);
          flowRate = Math_round (designArea * density);
          elevationPressure = ceilingHeight * 0.433;
          totalPressure =
            js_round (js_add (js_add (to_number (map_of basePressure hazardClass))
                                     (Num elevationPressure))
                             (js_mul (to_number (map_of basePressure hazardClass)) (Num 0.3)));
          pipeSize =
            (if flowRate < 100 then ''2'' @ inch_mark
             else if flowRate < 200 then ''2.5'' @ inch_mark
             else if flowRate < 400 then ''3'' @ inch_mark
             else if flowRate < 750 then ''4'' @ inch_mark
             else if flowRate < 1200 then ''5'' @ inch_mark
             else if flowRate < 2000 then ''6'' @ inch_mark
             else ''8'' @ inch_mark)
      in \<lparr>coverage = coverage, density = density, headCount = headCount,
          flowRate = flowRate, pressure = totalPressure, pipeSize = pipeSize\<rparr>)"

definition constructionFactors :: "(string \<times> real) list" where
  "constructionFactors =
     [(''Type I'', 0.6), (''Type II'', 0.8), (''Type III'', 1.0), (''Type IV'', 0.8),
      (''Type V'', 1.2)]"

definition calculateFireHydrantFlow :: "real \<Rightarrow> string \<Rightarrow> jsnum" where
  "calculateFireHydrantFlow buildingArea constructionType =
     (let C = js_or (map_of constructionFactors constructionType) 1.0;
          fireFlow = js_mul (js_mul (Num C) (Math_sqrt buildingArea)) (Num 18);
          fireFlow = Math_max (Num 500) (Math_min (Num 12000) fireFlow)
      in js_mul (js_round (js_div fireFlow (Num 250))) (Num 250))"

subsection \<open>Auxiliary definitions\<close>

text \<open>
  The size key of a wire label, as \<^verbatim>\<open>calculateVoltageDrop\<close> reads it:
  \<^verbatim>\<open>wireSize.replace(' AWG', '').replace(' kcmil', '')\<close>, where \<^verbatim>\<open>replace\<close> with a
  string pattern replaces the first occurrence.
\<close>

fun replace_first :: "string \<Rightarrow> string \<Rightarrow> string \<Rightarrow> string" where
  "replace_first pat rep [] = (if pat = [] then rep else [])"
| "replace_first pat rep (c # cs) =
     (if take (length pat) (c # cs) = pat then rep @ drop (length pat) (c # cs)
      else c # replace_first pat rep cs)"

definition sizeKey :: "string \<Rightarrow> string" where
  "sizeKey wireSize = replace_first '' kcmil'' [] (replace_first '' AWG'' [] wireSize)"

text \<open>
  The wire ladder is the list of the size keys of the ampacity table as it is written,
  from the thinnest conductor (14) to the thickest (1000). The position of a label in
  the ladder orders the labels.
\<close>

definition wire_ladder :: "string list" where
  "wire_ladder = map fst copperAmpacity75C"

definition wire_ladder_position :: "string \<Rightarrow> int" where
  "wire_ladder_position wireSize = indexOf wire_ladder (sizeKey wireSize)"

text \<open>The ampacity table that \<^verbatim>\<open>calculateWireSize\<close> builds for aluminum.\<close>

definition aluminumAmpacity :: "(string \<times> real) list" where
  "aluminumAmpacity =
     Object_fromEntries
       (map (\<lambda>(sz, amp). (sz, Math_round (amp * 0.62))) (Object_entries copperAmpacity75C))"

text \<open>The loop of \<^verbatim>\<open>calculateWireSize\<close> over the entries of a table.\<close>

definition wire_select :: "(string \<times> real) list \<Rightarrow> real \<Rightarrow> real \<Rightarrow> string" where
  "wire_select entries tempFactor requiredAmpacity =
     (case find (\<lambda>(sz, ampacity). ampacity * tempFactor \<ge> requiredAmpacity) entries of
        Some (sz, ampacity) \<Rightarrow> sz @ '' AWG''
      | None \<Rightarrow> ''1000 kcmil'')"

text \<open>
  The wire size as the specification words it: the required ampacity is the current
  over 0.8; the tabulated ampacity (for aluminum 0.62 times that of copper) is corrected
  by the temperature factor; the result is the smallest gauge of the table whose
  corrected ampacity reaches the requirement, or the largest tabulated size. The table is
  read in the order it is written, which is the order of ascending ampacity. The result
  is the size key.
\<close>

definition wireSize_spec :: "real \<Rightarrow> string \<Rightarrow> real \<Rightarrow> string" where
  "wireSize_spec current material tempRating =
     (let table = (if material = ''copper'' then copperAmpacity75C
                   else map (\<lambda>(sz, amp). (sz, amp * 0.62)) copperAmpacity75C);
          tempFactor = (if tempRating = 60 then 0.88 else if tempRating = 90 then 1.04 else 1.0);
          required = current / 0.8
      in case find (\<lambda>(sz, amp). amp * tempFactor \<ge> required) table of
           Some (sz, amp) \<Rightarrow> sz
         | None \<Rightarrow> fst (last table))"

text \<open>The diameter that \<^verbatim>\<open>calculatePipeSize\<close> computes before it reads the ladder.\<close>

definition pipe_diameter :: "real \<Rightarrow> real" where
  "pipe_diameter wsfu = sqrt ((4 * (fixtureUnitsToGPM wsfu / (7.48 * 60) / 5)) / pi) * 12"

text \<open>What one entry of the fixture counts adds to the total.\<close>

definition fixture_term :: "string \<times> real \<Rightarrow> real" where
  "fixture_term = (\<lambda>(fixtureName, count). js_or (map_of fixtureUnits fixtureName) 1 * count)"

text \<open>The pressure loss that \<^verbatim>\<open>calculateFrictionLoss\<close> rounds, when it is finite.\<close>

definition friction_psi :: "real \<Rightarrow> real \<Rightarrow> real" where
  "friction_psi q d = (4.52 * q powr 1.85) / (140 powr 1.85 * d powr 4.87) * 0.433"

text \<open>
  The three parts of \<^verbatim>\<open>calculatePipeSize\<close>: the size it selects for the diameter
  (\<^verbatim>\<open>selectedSize\<close> before the check of the pressure loss), the check itself
  (\<^verbatim>\<open>pressureLoss > pressureAvailable * 0.5\<close>), and the step to the next size of
  the ladder that follows when the check succeeds.
\<close>

definition pipe_selected :: "real \<Rightarrow> real" where
  "pipe_selected wsfu =
     js_or (find (\<lambda>size. size \<ge> pipe_diameter wsfu) pipe_standardSizes)
           (pipe_standardSizes ! 0)"

definition pipe_loss_exceeded :: "real \<Rightarrow> real \<Rightarrow> real \<Rightarrow> bool" where
  "pipe_loss_exceeded wsfu len pressureAvailable =
     js_gt (js_div (js_mul (calculateFrictionLoss (fixtureUnitsToGPM wsfu)
                                                   (pipe_diameter wsfu) len)
                           (Num len))
                   (Num 100))
           (Num (pressureAvailable * 0.5))"

definition next_pipe_size :: "real \<Rightarrow> real" where
  "next_pipe_size selectedSize =
     (let index = indexOf pipe_standardSizes selectedSize
      in if index < int (length pipe_standardSizes) - 1
         then pipe_standardSizes ! nat (index + 1)
         else selectedSize)"

section \<open>Properties\<close>

subsection \<open>Heating load and breaker size\<close>

lemma find_in_set: "find P xs = Some x \<Longrightarrow> x \<in> set xs"
  by (induction xs) (auto split: if_splits)

lemma breaker_in_ladder: "calculateBreakerSize c b \<in> set breaker_standardSizes"
proof -
  define r where "r = (if b then c / 0.8 else c)"
  have last: "breaker_standardSizes ! (length breaker_standardSizes - 1) = 1200"
    by (simp add: breaker_standardSizes_def)
  have nz: "0 \<notin> set breaker_standardSizes"
    by (simp add: breaker_standardSizes_def)
  show ?thesis
  proof (cases "find (\<lambda>size. size \<ge> r) breaker_standardSizes")
    case None
    then show ?thesis
      unfolding calculateBreakerSize_def Let_def r_def [symmetric] js_or_def last
      by (simp add: breaker_standardSizes_def)
  next
    case (Some v)
    then have "v \<in> set breaker_standardSizes" by (rule find_in_set)
    with nz Some show ?thesis
      unfolding calculateBreakerSize_def Let_def r_def [symmetric] js_or_def
      by auto
  qed
qed







text \<open>
  C10: whatever the current and the continuous-load flag, the breaker is at least 15 A.
\<close>

theorem breaker_at_least_15: "15 \<le> calculateBreakerSize current isContinuous"
proof -
  have "\<forall>s \<in> set breaker_standardSizes. 15 \<le> s"
    by (simp add: breaker_standardSizes_def)
  then show ?thesis using breaker_in_ladder by blast
qed

subsection \<open>Bounds on rational powers\<close>

lemma powr_root_power:
  assumes "0 < x" "0 < q"
  shows "(x powr (real p / real q)) ^ q = x ^ p"
proof -
  have "(x powr (real p / real q)) ^ q = (x powr (real p / real q)) powr real q"
    using assms by (simp add: powr_realpow)
  also have "\<dots> = x powr real p"
    using assms by (simp add: powr_powr)
  also have "\<dots> = x ^ p"
    using assms by (simp add: powr_realpow)
  finally show ?thesis .
qed

lemma powr_ge_root:
  assumes "0 \<le> a" "0 < x" "0 < q" "a ^ q \<le> x ^ p"
  shows "a \<le> x powr (real p / real q)"
proof -
  have "a ^ q \<le> (x powr (real p / real q)) ^ q"
    using assms by (simp add: powr_root_power)
  then show ?thesis
    using assms by simp
qed

lemma powr_le_root:
  assumes "0 \<le> b" "0 < x" "0 < q" "x ^ p \<le> b ^ q"
  shows "x powr (real p / real q) \<le> b"
proof -
  have "(x powr (real p / real q)) ^ q \<le> b ^ q"
    using assms by (simp add: powr_root_power)
  then show ?thesis
    using assms by simp
qed

subsection \<open>The flow curve\<close>

lemma gpm_consts:
  "(2::real) \<le> 10 powr 0.45" "(50::real) powr 0.45 \<le> 6"
  "(4::real) \<le> 50 powr 0.38" "(200::real) powr 0.38 \<le> 8"
  "(6::real) \<le> 200 powr 0.35"
proof -
  show "(2::real) \<le> 10 powr 0.45"
    using powr_ge_root [of 2 10 20 9] by simp
  show "(50::real) powr 0.45 \<le> 6"
    using powr_le_root [of 6 50 20 9] by simp
  show "(4::real) \<le> 50 powr 0.38"
    using powr_ge_root [of 4 50 50 19] by simp
  show "(200::real) powr 0.38 \<le> 8"
    using powr_le_root [of 8 200 50 19] by simp
  show "(6::real) \<le> 200 powr 0.35"
    using powr_ge_root [of 6 200 20 7] by simp
qed

lemma gpm_pos: "0 < w \<Longrightarrow> 0 < fixtureUnitsToGPM w"
  by (simp add: fixtureUnitsToGPM_def)

lemma gpm_nonneg: "0 \<le> fixtureUnitsToGPM w"
  by (simp add: fixtureUnitsToGPM_def)

text \<open>What each branch reaches at most, and at least.\<close>

lemma gpm_upper:
  "w \<le> 10 \<Longrightarrow> fixtureUnitsToGPM w \<le> 12"
  "w \<le> 50 \<Longrightarrow> fixtureUnitsToGPM w \<le> 48"
  "w \<le> 200 \<Longrightarrow> fixtureUnitsToGPM w \<le> 120"
proof -
  have s10: "sqrt 10 \<le> 3.2"
    by (rule real_le_lsqrt) (simp_all add: power2_eq_square)
  have b1: "fixtureUnitsToGPM w \<le> 12" if "w \<le> 10" for w
  proof (cases "w \<le> 0")
    case True
    then show ?thesis by (simp add: fixtureUnitsToGPM_def)
  next
    case False
    from that have "sqrt w \<le> sqrt 10" by simp
    with s10 have "sqrt w * 3.5 \<le> 12" by linarith
    with False that show ?thesis by (simp add: fixtureUnitsToGPM_def)
  qed
  have b2: "fixtureUnitsToGPM w \<le> 48" if "w \<le> 50" for w
  proof (cases "w \<le> 10")
    case True
    then show ?thesis using b1 [of w] by simp
  next
    case False
    with that have "w powr 0.45 \<le> 50 powr 0.45"
      by (intro powr_mono2) simp_all
    with gpm_consts(2) False that show ?thesis by (simp add: fixtureUnitsToGPM_def)
  qed
  have b3: "fixtureUnitsToGPM w \<le> 120" if "w \<le> 200" for w
  proof (cases "w \<le> 50")
    case True
    then show ?thesis using b2 [of w] by simp
  next
    case False
    with that have "w powr 0.38 \<le> 200 powr 0.38"
      by (intro powr_mono2) simp_all
    with gpm_consts(4) False that show ?thesis by (simp add: fixtureUnitsToGPM_def)
  qed
  show "w \<le> 10 \<Longrightarrow> fixtureUnitsToGPM w \<le> 12" by (rule b1)
  show "w \<le> 50 \<Longrightarrow> fixtureUnitsToGPM w \<le> 48" by (rule b2)
  show "w \<le> 200 \<Longrightarrow> fixtureUnitsToGPM w \<le> 120" by (rule b3)
qed

lemma gpm_lower:
  "200 < w \<Longrightarrow> 120 < fixtureUnitsToGPM w"
  "50 < w \<Longrightarrow> 60 < fixtureUnitsToGPM w"
  "10 < w \<Longrightarrow> 16 < fixtureUnitsToGPM w"
proof -
  have b4: "120 < fixtureUnitsToGPM w" if "200 < w" for w
  proof -
    from that have "200 powr 0.35 < w powr 0.35"
      by (intro powr_less_mono2) simp_all
    with gpm_consts(5) that show ?thesis by (simp add: fixtureUnitsToGPM_def)
  qed
  have b3: "60 < fixtureUnitsToGPM w" if "50 < w" for w
  proof (cases "200 < w")
    case True
    then show ?thesis using b4 [of w] by simp
  next
    case False
    from that have "50 powr 0.38 < w powr 0.38"
      by (intro powr_less_mono2) simp_all
    with gpm_consts(3) False that show ?thesis by (simp add: fixtureUnitsToGPM_def)
  qed
  have b2: "16 < fixtureUnitsToGPM w" if "10 < w" for w
  proof (cases "50 < w")
    case True
    then show ?thesis using b3 [of w] by simp
  next
    case False
    from that have "10 powr 0.45 < w powr 0.45"
      by (intro powr_less_mono2) simp_all
    with gpm_consts(1) False that show ?thesis by (simp add: fixtureUnitsToGPM_def)
  qed
  show "200 < w \<Longrightarrow> 120 < fixtureUnitsToGPM w" by (rule b4)
  show "50 < w \<Longrightarrow> 60 < fixtureUnitsToGPM w" by (rule b3)
  show "10 < w \<Longrightarrow> 16 < fixtureUnitsToGPM w" by (rule b2)
qed

lemma gpm_strict_mono:
  assumes "0 \<le> x" "x < y"
  shows "fixtureUnitsToGPM x < fixtureUnitsToGPM y"
proof -
  consider "x = 0" | "0 < x" "y \<le> 10" | "0 < x" "x \<le> 10" "10 < y"
    | "10 < x" "y \<le> 50" | "10 < x" "x \<le> 50" "50 < y"
    | "50 < x" "y \<le> 200" | "50 < x" "x \<le> 200" "200 < y" | "200 < x"
    using assms by linarith
  then show ?thesis
  proof cases
    case 1
    then show ?thesis using gpm_pos [of y] assms by (simp add: fixtureUnitsToGPM_def)
  next
    case 2
    then show ?thesis using assms by (simp add: fixtureUnitsToGPM_def)
  next
    case 3
    then show ?thesis using gpm_upper(1) [of x] gpm_lower(3) [of y] by linarith
  next
    case 4
    then have "x powr 0.45 < y powr 0.45"
      using assms by (intro powr_less_mono2) simp_all
    with 4 assms show ?thesis by (simp add: fixtureUnitsToGPM_def)
  next
    case 5
    then show ?thesis using gpm_upper(2) [of x] gpm_lower(2) [of y] by linarith
  next
    case 6
    then have "x powr 0.38 < y powr 0.38"
      using assms by (intro powr_less_mono2) simp_all
    with 6 assms show ?thesis by (simp add: fixtureUnitsToGPM_def)
  next
    case 7
    then show ?thesis using gpm_upper(3) [of x] gpm_lower(1) [of y] by linarith
  next
    case 8
    then have "x powr 0.35 < y powr 0.35"
      using assms by (intro powr_less_mono2) simp_all
    with 8 assms show ?thesis by (simp add: fixtureUnitsToGPM_def)
  qed
qed

text \<open>
  C5: the flow is zero at zero and below; it is strictly increasing from zero on, across
  the breakpoints 10, 50 and 200; and each branch is the stated formula.
\<close>

theorem fixtureUnitsToGPM_contract:
  "fixtureUnitsToGPM 0 = 0
   \<and> (w0 \<le> 0 \<longrightarrow> fixtureUnitsToGPM w0 = 0)
   \<and> (0 \<le> x \<and> x < y \<longrightarrow> fixtureUnitsToGPM x < fixtureUnitsToGPM y)
   \<and> (0 < w1 \<and> w1 \<le> 10 \<longrightarrow> fixtureUnitsToGPM w1 = sqrt w1 * 3.5)
   \<and> (10 < w2 \<and> w2 \<le> 50 \<longrightarrow> fixtureUnitsToGPM w2 = w2 powr 0.45 * 8)
   \<and> (50 < w3 \<and> w3 \<le> 200 \<longrightarrow> fixtureUnitsToGPM w3 = w3 powr 0.38 * 15)
   \<and> (200 < w4 \<longrightarrow> fixtureUnitsToGPM w4 = w4 powr 0.35 * 20)"
proof -
  have mono: "0 \<le> x \<and> x < y \<longrightarrow> fixtureUnitsToGPM x < fixtureUnitsToGPM y"
    using gpm_strict_mono [of x y] by blast
  have branches: "fixtureUnitsToGPM 0 = 0"
    "w0 \<le> 0 \<longrightarrow> fixtureUnitsToGPM w0 = 0"
    "0 < w1 \<and> w1 \<le> 10 \<longrightarrow> fixtureUnitsToGPM w1 = sqrt w1 * 3.5"
    "10 < w2 \<and> w2 \<le> 50 \<longrightarrow> fixtureUnitsToGPM w2 = w2 powr 0.45 * 8"
    "50 < w3 \<and> w3 \<le> 200 \<longrightarrow> fixtureUnitsToGPM w3 = w3 powr 0.38 * 15"
    "200 < w4 \<longrightarrow> fixtureUnitsToGPM w4 = w4 powr 0.35 * 20"
    by (simp_all add: fixtureUnitsToGPM_def)
  from mono branches show ?thesis by blast
qed

theorem fixtureUnitsToGPM_contract_witness:
  "fixtureUnitsToGPM (-3) = 0
   \<and> fixtureUnitsToGPM 9 < fixtureUnitsToGPM 40
   \<and> fixtureUnitsToGPM 40 < fixtureUnitsToGPM 51
   \<and> fixtureUnitsToGPM 4 = 7
   \<and> fixtureUnitsToGPM 40 = 40 powr 0.45 * 8
   \<and> fixtureUnitsToGPM 100 = 100 powr 0.38 * 15
   \<and> fixtureUnitsToGPM 1000 = 1000 powr 0.35 * 20"
  using fixtureUnitsToGPM_contract [of "-3" 9 40 4 40 100 1000]
        fixtureUnitsToGPM_contract [of "-3" 40 51 4 40 100 1000]
  by simp

subsection \<open>Hydrant flow\<close>

lemma hydrant_formula:
  assumes "0 \<le> area"
  shows "calculateFireHydrantFlow area ct =
     Num (Math_round (max 500 (min 12000
            (js_or (map_of constructionFactors ct) 1.0 * sqrt area * 18)) / 250) * 250)"
  using assms
  by (simp add: calculateFireHydrantFlow_def Math_sqrt_def Math_max_def Math_min_def Let_def
      max_def min_def)

lemma round_clamped:
  assumes "500 \<le> x" "x \<le> 12000"
  shows "\<exists>k::int. Math_round (x / 250) * 250 = 250 * of_int k \<and> 2 \<le> k \<and> k \<le> 48"
proof -
  let ?k = "\<lfloor>x / 250 + 1 / 2\<rfloor>"
  have "2 \<le> ?k" using assms by (simp add: le_floor_iff)
  moreover have "?k \<le> 48" using assms by (simp add: floor_le_iff)
  ultimately show ?thesis by (auto simp: Math_round_def)
qed

lemma hydrant_example: "calculateFireHydrantFlow 10000 ''Type III'' = Num 1750"
proof -
  have "sqrt (10000::real) = 100"
    by (rule real_sqrt_unique) simp_all
  then show ?thesis
    by (simp add: calculateFireHydrantFlow_def constructionFactors_def js_or_def Math_sqrt_def
        Math_max_def Math_min_def Math_round_def Let_def)
qed

text \<open>
  C6, as stated, fails: 10000 square feet of Type III construction give 1750 GPM (1800
  rounded to the nearest 250), not 1800; and a negative area gives NaN, which is no
  multiple of 250.
\<close>

theorem hydrant_counterexample:
  "calculateFireHydrantFlow 10000 ''Type III'' = Num 1750
   \<and> calculateFireHydrantFlow 10000 ''Type III'' \<noteq> Num 1800
   \<and> calculateFireHydrantFlow (-1) ''Type III'' = NaN"
proof -
  have "calculateFireHydrantFlow (-1) ''Type III'' = NaN"
    by (simp add: calculateFireHydrantFlow_def Math_sqrt_def Math_max_def Math_min_def Let_def)
  then show ?thesis by (simp add: hydrant_example)
qed

lemma hydrant_negative:
  assumes "area < 0"
  shows "calculateFireHydrantFlow area ct = NaN"
  using assms
  by (simp add: calculateFireHydrantFlow_def Math_sqrt_def Math_max_def Math_min_def Let_def)

text \<open>
  C6, amended: for an area that is not negative, the hydrant flow is the construction
  factor (1.0 for an unknown type) times the square root of the area times 18, clamped to
  500..12000 and then rounded to the nearest 250; it is a multiple of 250 between 500 and
  12000; 10000 square feet of Type III construction give 1750; and for a negative area
  the result is NaN.
\<close>

theorem hydrant_flow_amended:
  "(0 \<le> area \<longrightarrow>
      calculateFireHydrantFlow area ct =
        Num (Math_round (max 500 (min 12000
          (js_or (map_of constructionFactors ct) 1.0 * sqrt area * 18)) / 250) * 250)
      \<and> (\<exists>k::int. calculateFireHydrantFlow area ct = Num (250 * of_int k)
                   \<and> 2 \<le> k \<and> k \<le> 48))
   \<and> (negativeArea < 0 \<longrightarrow> calculateFireHydrantFlow negativeArea ct = NaN)
   \<and> length constructionFactors = 5
   \<and> js_or (map_of constructionFactors ''Type IX'') 1.0 = 1.0
   \<and> calculateFireHydrantFlow 10000 ''Type III'' = Num 1750"
proof -
  have pos: "calculateFireHydrantFlow area ct =
        Num (Math_round (max 500 (min 12000
          (js_or (map_of constructionFactors ct) 1.0 * sqrt area * 18)) / 250) * 250)
      \<and> (\<exists>k::int. calculateFireHydrantFlow area ct = Num (250 * of_int k)
                   \<and> 2 \<le> k \<and> k \<le> 48)" if a: "0 \<le> area"
  proof -
    let ?x = "max 500 (min 12000 (js_or (map_of constructionFactors ct) 1.0 * sqrt area * 18))"
    have "500 \<le> ?x" "?x \<le> 12000" by simp_all
    then obtain k :: int
      where "Math_round (?x / 250) * 250 = 250 * of_int k" "2 \<le> k" "k \<le> 48"
      using round_clamped by blast
    then have "\<exists>k::int. calculateFireHydrantFlow area ct = Num (250 * of_int k)
                 \<and> 2 \<le> k \<and> k \<le> 48"
      using hydrant_formula [OF a, of ct] by auto
    then show ?thesis using hydrant_formula [OF a, of ct] by blast
  qed
  have "js_or (map_of constructionFactors ''Type IX'') 1.0 = 1.0"
    by (simp add: constructionFactors_def js_or_def)
  moreover have "length constructionFactors = 5"
    by (simp add: constructionFactors_def)
  ultimately show ?thesis
    using pos hydrant_negative [of negativeArea ct] hydrant_example by blast
qed

theorem hydrant_flow_amended_witness:
  "calculateFireHydrantFlow 40000 ''Type V'' = Num 4250
   \<and> (\<exists>k::int. calculateFireHydrantFlow 40000 ''Type V'' = Num (250 * of_int k)
                \<and> 2 \<le> k \<and> k \<le> 48)
   \<and> calculateFireHydrantFlow (- 2500) ''Type V'' = NaN"
proof -
  have s: "sqrt (40000::real) = 200"
    by (rule real_sqrt_unique) simp_all
  have "calculateFireHydrantFlow 40000 ''Type V'' = Num 4250"
    using hydrant_flow_amended [of 40000 "''Type V''" "- 2500"] s
    by (simp add: constructionFactors_def js_or_def Math_round_def)
  then show ?thesis
    using hydrant_flow_amended [of 40000 "''Type V''" "- 2500"] by simp
qed

subsection \<open>Fixture units\<close>

lemma foldl_sum: "foldl (\<lambda>total e. total + g e) (t::real) xs = t + sum_list (map g xs)"
  by (induction xs arbitrary: t) simp_all

lemma mset_Object_entries: "mset (Object_entries obj) = mset obj"
  by (simp add: Object_entries_def case_prod_unfold) 

lemma total_sum: "calculateTotalFixtureUnits fixtures = sum_list (map fixture_term fixtures)"
proof -
  have "calculateTotalFixtureUnits fixtures
        = foldl (\<lambda>total e. total + fixture_term e) 0 (Object_entries fixtures)"
    by (simp add: calculateTotalFixtureUnits_def fixture_term_def case_prod_unfold Let_def)
  also have "\<dots> = sum_list (map fixture_term (Object_entries fixtures))"
    by (simp add: foldl_sum)
  also have "\<dots> = sum_mset (image_mset fixture_term (mset (Object_entries fixtures)))"
    by (metis mset_map sum_mset_sum_list)
  also have "\<dots> = sum_list (map fixture_term fixtures)"
    by (metis mset_Object_entries mset_map sum_mset_sum_list)
  finally show ?thesis .
qed

lemma total_union:
  assumes "distinct (map fst a)" "distinct (map fst b)" "set (map fst a) \<inter> set (map fst b) = {}"
    "distinct (map fst u)" "set u = set a \<union> set b"
  shows "calculateTotalFixtureUnits u = calculateTotalFixtureUnits a + calculateTotalFixtureUnits b"
proof -
  have da: "distinct a" and db: "distinct b" and du: "distinct u"
    using assms by (simp_all add: distinct_map)
  have "set a \<inter> set b = {}"
    using assms(3) by (auto simp: image_iff)
  with da db have dab: "distinct (a @ b)" by simp
  have "set u = set (a @ b)" using assms(5) by simp
  with du dab have "mset u = mset (a @ b)"
    by (rule iffD1 [OF set_eq_iff_mset_eq_distinct])
  then have "sum_list (map fixture_term u) = sum_list (map fixture_term (a @ b))"
    by (metis mset_map sum_mset_sum_list)
  then show ?thesis by (simp add: total_sum)
qed

lemma total_scale:
  "calculateTotalFixtureUnits (map (\<lambda>(fixtureName, count). (fixtureName, k * count)) a)
     = k * calculateTotalFixtureUnits a"
  unfolding total_sum
  by (induction a) (auto simp: fixture_term_def algebra_simps)

text \<open>
  C9: the total of the union of two fixture-count maps with disjoint names is the sum of
  their totals, whatever the order of the entries of the union; and scaling every count
  by \<open>k\<close> scales the total by \<open>k\<close>.
\<close>

theorem total_additive_homogeneous:
  "(distinct (map fst a) \<and> distinct (map fst b) \<and> set (map fst a) \<inter> set (map fst b) = {}
      \<and> distinct (map fst u) \<and> set u = set a \<union> set b
     \<longrightarrow> calculateTotalFixtureUnits u = calculateTotalFixtureUnits a + calculateTotalFixtureUnits b)
   \<and> calculateTotalFixtureUnits (map (\<lambda>(fixtureName, count). (fixtureName, k * count)) a)
       = k * calculateTotalFixtureUnits a"
  using total_union [of a b u] total_scale [of k a] by blast

theorem total_additive_homogeneous_witness:
  "calculateTotalFixtureUnits
       [(''Lavatory'', 2), (''Bathtub'', 1), (''Drinking Fountain'', 4), (''Mop Basin'', 3)]
     = calculateTotalFixtureUnits [(''Lavatory'', 2), (''Drinking Fountain'', 4)]
       + calculateTotalFixtureUnits [(''Bathtub'', 1), (''Mop Basin'', 3)]
   \<and> calculateTotalFixtureUnits [(''Lavatory'', 2), (''Drinking Fountain'', 4)] = 4
   \<and> calculateTotalFixtureUnits [(''Lavatory'', 6), (''Drinking Fountain'', 12)] = 12"
proof -
  have t: "calculateTotalFixtureUnits [(''Lavatory'', 2), (''Drinking Fountain'', 4)] = 4"
    by (simp add: total_sum fixture_term_def fixtureUnits_def js_or_def)
  from total_additive_homogeneous
         [of "[(''Lavatory'', 2), (''Drinking Fountain'', 4)]"
             "[(''Bathtub'', 1), (''Mop Basin'', 3)]"
             "[(''Lavatory'', 2), (''Bathtub'', 1), (''Drinking Fountain'', 4), (''Mop Basin'', 3)]"
             3]
  show ?thesis by (simp add: t insert_commute)
qed


subsection \<open>Sprinkler system\<close>

lemma sprinkler_example:
  "calculateSprinklerSystem 20000 ''Ordinary I'' 15 =
     \<lparr>coverage = 130, density = 0.15, headCount = 154, flowRate = 225,
      pressure = Num 19, pipeSize = ''3'' @ inch_mark\<rparr>"
  by (simp add: calculateSprinklerSystem_def Let_def densities_def coverages_def
      basePressure_def js_or_def to_number_def Math_round_def Math_ceil_def)

text \<open>
  C8: for a hazard class and a ceiling height, two protected areas give the same
  density, coverage, flow rate (the rounded product of the design area, which is the larger of
  1500 and five coverages, and the density), pressure and pipe size; the head count is
  the area over the coverage, rounded up.
\<close>

theorem sprinkler_area_independent:
  "density (calculateSprinklerSystem area1 hazardClass ceilingHeight)
     = density (calculateSprinklerSystem area2 hazardClass ceilingHeight)
   \<and> coverage (calculateSprinklerSystem area1 hazardClass ceilingHeight)
     = coverage (calculateSprinklerSystem area2 hazardClass ceilingHeight)
   \<and> flowRate (calculateSprinklerSystem area1 hazardClass ceilingHeight)
     = flowRate (calculateSprinklerSystem area2 hazardClass ceilingHeight)
   \<and> pressure (calculateSprinklerSystem area1 hazardClass ceilingHeight)
     = pressure (calculateSprinklerSystem area2 hazardClass ceilingHeight)
   \<and> pipeSize (calculateSprinklerSystem area1 hazardClass ceilingHeight)
     = pipeSize (calculateSprinklerSystem area2 hazardClass ceilingHeight)
   \<and> flowRate (calculateSprinklerSystem area1 hazardClass ceilingHeight)
     = Math_round (max 1500 (coverage (calculateSprinklerSystem area1 hazardClass ceilingHeight) * 5)
                   * density (calculateSprinklerSystem area1 hazardClass ceilingHeight))
   \<and> headCount (calculateSprinklerSystem area1 hazardClass ceilingHeight)
     = Math_ceil (area1 / coverage (calculateSprinklerSystem area1 hazardClass ceilingHeight))"
  by (simp add: calculateSprinklerSystem_def Let_def)

subsection \<open>Wire size\<close>

lemma array_index_simps:
  "array_index ''14'' = Some 14" "array_index ''12'' = Some 12" "array_index ''10'' = Some 10"
  "array_index ''8'' = Some 8" "array_index ''6'' = Some 6" "array_index ''4'' = Some 4"
  "array_index ''3'' = Some 3" "array_index ''2'' = Some 2" "array_index ''1'' = Some 1"
  "array_index ''1/0'' = None" "array_index ''2/0'' = None" "array_index ''3/0'' = None"
  "array_index ''4/0'' = None" "array_index ''250'' = Some 250" "array_index ''300'' = Some 300"
  "array_index ''350'' = Some 350" "array_index ''400'' = Some 400" "array_index ''500'' = Some 500"
  "array_index ''600'' = Some 600" "array_index ''750'' = Some 750" "array_index ''1000'' = Some 1000"
  by (simp_all add: array_index_def digit_val_def)

text \<open>
  The order in which the loop of \<^verbatim>\<open>calculateWireSize\<close> visits the copper table: the
  numeric keys ascending, from 1 (130 A) to 14 (20 A) and on to 1000, and then the keys
  1/0 to 4/0.
\<close>

lemma copper_entries:
  "Object_entries copperAmpacity75C =
     [(''1'', 130), (''2'', 115), (''3'', 100), (''4'', 85), (''6'', 65), (''8'', 50),
      (''10'', 35), (''12'', 25), (''14'', 20), (''250'', 255), (''300'', 285), (''350'', 310),
      (''400'', 335), (''500'', 380), (''600'', 420), (''750'', 475), (''1000'', 545),
      (''1/0'', 150), (''2/0'', 175), (''3/0'', 200), (''4/0'', 230)]"
  by (simp add: Object_entries_def copperAmpacity75C_def array_index_simps)

lemma aluminum_table:
  "aluminumAmpacity =
     [(''1'', 81), (''2'', 71), (''3'', 62), (''4'', 53), (''6'', 40), (''8'', 31),
      (''10'', 22), (''12'', 16), (''14'', 12), (''250'', 158), (''300'', 177), (''350'', 192),
      (''400'', 208), (''500'', 236), (''600'', 260), (''750'', 295), (''1000'', 338),
      (''1/0'', 93), (''2/0'', 109), (''3/0'', 124), (''4/0'', 143)]"
  by (simp add: aluminumAmpacity_def copper_entries Object_fromEntries_def Math_round_def)

lemma aluminum_entries: "Object_entries aluminumAmpacity = aluminumAmpacity"
  by (simp add: aluminum_table Object_entries_def array_index_simps)

lemma wire_unfold:
  "calculateWireSize c m t =
     wire_select (if m = ''copper'' then Object_entries copperAmpacity75C else aluminumAmpacity)
        (js_or (tempFactors t) 1) (c / 0.8)"
  unfolding calculateWireSize_def wire_select_def Let_def aluminumAmpacity_def [symmetric]
  by (simp add: aluminum_entries)

lemma tempFactor_pos: "0 < js_or (tempFactors t) 1"
  by (simp add: js_or_def tempFactors_def)

lemma copper_select:
  assumes "0 < tf"
  shows "wire_select (Object_entries copperAmpacity75C) tf r =
     (if r \<le> 130 * tf then ''1 AWG'' else if r \<le> 255 * tf then ''250 AWG''
      else if r \<le> 285 * tf then ''300 AWG'' else if r \<le> 310 * tf then ''350 AWG''
      else if r \<le> 335 * tf then ''400 AWG'' else if r \<le> 380 * tf then ''500 AWG''
      else if r \<le> 420 * tf then ''600 AWG'' else if r \<le> 475 * tf then ''750 AWG''
      else if r \<le> 545 * tf then ''1000 AWG'' else ''1000 kcmil'')"
  using assms by (simp add: wire_select_def copper_entries)

lemma aluminum_select:
  assumes "0 < tf"
  shows "wire_select aluminumAmpacity tf r =
     (if r \<le> 81 * tf then ''1 AWG'' else if r \<le> 158 * tf then ''250 AWG''
      else if r \<le> 177 * tf then ''300 AWG'' else if r \<le> 192 * tf then ''350 AWG''
      else if r \<le> 208 * tf then ''400 AWG'' else if r \<le> 236 * tf then ''500 AWG''
      else if r \<le> 260 * tf then ''600 AWG'' else if r \<le> 295 * tf then ''750 AWG''
      else if r \<le> 338 * tf then ''1000 AWG'' else ''1000 kcmil'')"
  using assms by (simp add: wire_select_def aluminum_table)

lemma wire_positions:
  "wire_ladder_position ''1 AWG'' = 8"
  "wire_ladder_position ''250 AWG'' = 13"
  "wire_ladder_position ''300 AWG'' = 14"
  "wire_ladder_position ''350 AWG'' = 15"
  "wire_ladder_position ''400 AWG'' = 16"
  "wire_ladder_position ''500 AWG'' = 17"
  "wire_ladder_position ''600 AWG'' = 18"
  "wire_ladder_position ''750 AWG'' = 19"
  "wire_ladder_position ''1000 AWG'' = 20"
  "wire_ladder_position ''1000 kcmil'' = 20"
  by (simp_all add: wire_ladder_position_def sizeKey_def wire_ladder_def copperAmpacity75C_def)

lemma wire_keys:
  "sizeKey ''1 AWG'' \<in> set wire_ladder"
  "sizeKey ''250 AWG'' \<in> set wire_ladder"
  "sizeKey ''300 AWG'' \<in> set wire_ladder"
  "sizeKey ''350 AWG'' \<in> set wire_ladder"
  "sizeKey ''400 AWG'' \<in> set wire_ladder"
  "sizeKey ''500 AWG'' \<in> set wire_ladder"
  "sizeKey ''600 AWG'' \<in> set wire_ladder"
  "sizeKey ''750 AWG'' \<in> set wire_ladder"
  "sizeKey ''1000 AWG'' \<in> set wire_ladder"
  "sizeKey ''1000 kcmil'' \<in> set wire_ladder"
  by (simp_all add: sizeKey_def wire_ladder_def copperAmpacity75C_def)

lemma copper_select_mono:
  assumes "0 < tf" "r1 \<le> r2"
  shows "wire_ladder_position (wire_select (Object_entries copperAmpacity75C) tf r1)
       \<le> wire_ladder_position (wire_select (Object_entries copperAmpacity75C) tf r2)"
  using assms by (simp add: copper_select wire_positions)

lemma aluminum_select_mono:
  assumes "0 < tf" "r1 \<le> r2"
  shows "wire_ladder_position (wire_select aluminumAmpacity tf r1)
       \<le> wire_ladder_position (wire_select aluminumAmpacity tf r2)"
  using assms by (simp add: aluminum_select wire_positions)

lemma wire_mono:
  assumes "c1 \<le> c2"
  shows "wire_ladder_position (calculateWireSize c1 m t)
       \<le> wire_ladder_position (calculateWireSize c2 m t)"
proof -
  have "c1 / 0.8 \<le> c2 / 0.8" using assms by simp
  then show ?thesis
    unfolding wire_unfold
    using copper_select_mono [OF tempFactor_pos] aluminum_select_mono [OF tempFactor_pos]
    by (cases "m = ''copper''") simp_all
qed

lemma wire_in_ladder: "sizeKey (calculateWireSize c m t) \<in> set wire_ladder"
  unfolding wire_unfold
  by (cases "m = ''copper''")
     (simp_all add: copper_select [OF tempFactor_pos] aluminum_select [OF tempFactor_pos] wire_keys)

lemma wire_exhaustion:
  assumes "c / 0.8 > 545 * js_or (tempFactors t) 1"
  shows "calculateWireSize c m t = ''1000 kcmil''"
  unfolding wire_unfold
  using assms tempFactor_pos [of t]
  by (cases "m = ''copper''")
     (simp_all add: copper_select [OF tempFactor_pos] aluminum_select [OF tempFactor_pos])

text \<open>
  C2: at 10 A on copper at 75 degrees the required ampacity is 12.5 A. The smallest gauge
  of the table that carries it is 14 AWG (20 A), which is what the specification asks
  for; the code returns 1 AWG (130 A), the first entry in the order of
  \<^verbatim>\<open>Object.entries\<close>.
\<close>

theorem wire_size_divergence:
  "calculateWireSize 10 ''copper'' 75 = ''1 AWG''
   \<and> wireSize_spec 10 ''copper'' 75 = ''14''
   \<and> sizeKey (calculateWireSize 10 ''copper'' 75) \<noteq> wireSize_spec 10 ''copper'' 75"
proof -
  have code: "calculateWireSize 10 ''copper'' 75 = ''1 AWG''"
    unfolding wire_unfold
    by (simp add: copper_select [of 1] tempFactors_def js_or_def)
  have spec: "wireSize_spec 10 ''copper'' 75 = ''14''"
    by (simp add: wireSize_spec_def copperAmpacity75C_def)
  have "sizeKey ''1 AWG'' = ''1''"
    by (simp add: sizeKey_def)
  with code spec show ?thesis by simp
qed

subsection \<open>Breaker and drain pipe\<close>

lemma find_threshold_mono:
  fixes xs :: "real list"
  assumes "sorted xs" "r1 \<le> r2" "\<forall>x\<in>set xs. x \<le> d"
  shows "(case find (\<lambda>s. s \<ge> r1) xs of None \<Rightarrow> d | Some v \<Rightarrow> v)
       \<le> (case find (\<lambda>s. s \<ge> r2) xs of None \<Rightarrow> d | Some v \<Rightarrow> v)"
  using assms
proof (induction xs)
  case Nil
  then show ?case by simp
next
  case (Cons x xs)
  show ?case
  proof (cases "x \<ge> r1")
    case False
    with Cons show ?thesis by simp
  next
    case True
    show ?thesis
    proof (cases "x \<ge> r2")
      case True
      with \<open>x \<ge> r1\<close> show ?thesis by simp
    next
      case False
      have "x \<le> (case find (\<lambda>s. s \<ge> r2) xs of None \<Rightarrow> d | Some v \<Rightarrow> v)"
      proof (cases "find (\<lambda>s. s \<ge> r2) xs")
        case None
        with Cons.prems show ?thesis by simp
      next
        case (Some v)
        then have "v \<in> set xs" by (rule find_in_set)
        with Cons.prems Some show ?thesis by auto
      qed
      with True False show ?thesis by simp
    qed
  qed
qed

lemma js_or_find:
  assumes "0 \<notin> set xs"
  shows "js_or (find P xs) d = (case find P xs of None \<Rightarrow> d | Some v \<Rightarrow> v)"
proof (cases "find P xs")
  case None
  then show ?thesis by (simp add: js_or_def)
next
  case (Some v)
  then have "v \<in> set xs" by (rule find_in_set)
  with assms Some show ?thesis by (auto simp: js_or_def)
qed

lemma breaker_unfold:
  "calculateBreakerSize c b =
     (case find (\<lambda>s. s \<ge> (if b then c / 0.8 else c)) breaker_standardSizes of
        None \<Rightarrow> 1200 | Some v \<Rightarrow> v)"
proof -
  have "0 \<notin> set breaker_standardSizes" by (simp add: breaker_standardSizes_def)
  moreover have "breaker_standardSizes ! (length breaker_standardSizes - 1) = 1200"
    by (simp add: breaker_standardSizes_def)
  ultimately show ?thesis
    by (simp add: calculateBreakerSize_def Let_def js_or_find)
qed

lemma breaker_mono:
  assumes "c1 \<le> c2"
  shows "calculateBreakerSize c1 b \<le> calculateBreakerSize c2 b"
proof -
  have s: "sorted breaker_standardSizes" by (simp add: breaker_standardSizes_def)
  have u: "\<forall>x\<in>set breaker_standardSizes. x \<le> 1200" by (simp add: breaker_standardSizes_def)
  have "(if b then c1 / 0.8 else c1) \<le> (if b then c2 / 0.8 else c2)"
    using assms by simp
  from find_threshold_mono [OF s this u] show ?thesis
    by (simp only: breaker_unfold)
qed

lemma breaker_exhaustion:
  assumes "(if b then c / 0.8 else c) > 1200"
  shows "calculateBreakerSize c b = 1200"
proof -
  have "\<forall>x\<in>set breaker_standardSizes. \<not> x \<ge> (if b then c / 0.8 else c)"
    using assms by (auto simp: breaker_standardSizes_def)
  then have "find (\<lambda>s. s \<ge> (if b then c / 0.8 else c)) breaker_standardSizes = None"
    by (simp add: find_None_iff)
  then show ?thesis by (simp only: breaker_unfold option.case)
qed

lemma drain_positive_slope:
  assumes "0 < slope"
  shows "calculateDrainPipeSize d slope =
     (let a = d / sqrt (slope / 0.25)
      in if a \<le> 3 then 1.5 else if a \<le> 6 then 2 else if a \<le> 12 then 2.5
         else if a \<le> 20 then 3 else if a \<le> 160 then 4 else if a \<le> 360 then 5
         else if a \<le> 620 then 6 else if a \<le> 1400 then 8 else if a \<le> 2500 then 10
         else 12)"
proof -
  have "sqrt (slope / 0.25) \<noteq> 0" using assms by simp
  then show ?thesis using assms
    by (simp add: calculateDrainPipeSize_def Math_sqrt_def drainCapacities_def js_or_def Let_def
             del: real_sqrt_eq_zero_cancel_iff)
qed

lemma drain_zero_slope:
  "calculateDrainPipeSize d 0 = (if d < 0 then 1.5 else 12)"
  by (simp add: calculateDrainPipeSize_def Math_sqrt_def drainCapacities_def js_or_def Let_def signed_inf_def)

lemma drain_negative_slope:
  "slope < 0 \<Longrightarrow> calculateDrainPipeSize d slope = 12"
  by (simp add: calculateDrainPipeSize_def Math_sqrt_def drainCapacities_def js_or_def Let_def)

lemma drain_mono:
  assumes "d1 \<le> d2"
  shows "calculateDrainPipeSize d1 slope \<le> calculateDrainPipeSize d2 slope"
proof -
  consider "slope < 0" | "slope = 0" | "0 < slope" by linarith
  then show ?thesis
  proof cases
    case 1
    then show ?thesis by (simp add: drain_negative_slope)
  next
    case 2
    then show ?thesis using assms by (simp add: drain_zero_slope)
  next
    case 3
    then have "d1 / sqrt (slope / 0.25) \<le> d2 / sqrt (slope / 0.25)"
      using assms by (intro divide_right_mono) simp_all
    then show ?thesis
      unfolding drain_positive_slope [OF 3] Let_def by (simp del: real_sqrt_eq_zero_cancel_iff)
  qed
qed

lemma drain_in_ladder:
  "calculateDrainPipeSize d slope \<in> set (map pipe_size drainCapacities)"
proof -
  consider "slope < 0" | "slope = 0" | "0 < slope" by linarith
  then show ?thesis
  proof cases
    case 1
    then show ?thesis by (simp add: drain_negative_slope drainCapacities_def)
  next
    case 2
    then show ?thesis by (simp add: drain_zero_slope drainCapacities_def)
  next
    case 3
    show ?thesis
      unfolding drain_positive_slope [OF 3] Let_def by (simp add: drainCapacities_def)
  qed
qed


subsection \<open>Bounds on pi\<close>

text \<open>
  The sine of \<open>pi / 6\<close> is one half, and the sine is within \<open>x ^ 5 / 120\<close> of
  \<open>x - x ^ 3 / 6\<close>: a bound on \<open>pi / 6\<close> gives a better one.
\<close>

lemma sin_taylor5:
  fixes x :: real
  shows "\<bar>sin x - (x - x ^ 3 / 6)\<bar> \<le> \<bar>x\<bar> ^ 5 / 120"
proof -
  have "{..<5::nat} = {0, 1, 2, 3, 4}" by auto
  then have e: "(\<Sum>m<5. sin_coeff m * x ^ m) = x - x ^ 3 / 6"
    by (simp add: sin_coeff_def fact_numeral)
  have f: "(fact 5 :: real) = 120"
    by (simp add: fact_numeral)
  show ?thesis
    using Maclaurin_sin_bound [of x 5] unfolding e f by simp
qed

lemma pi6_bounds_step:
  fixes x l u :: real
  assumes "sin x = 1 / 2" "0 \<le> l" "l \<le> x" "x \<le> u"
  shows "x * (1 - u\<^sup>2 / 6 - u ^ 4 / 120) \<le> 1 / 2"
    and "1 / 2 \<le> x * (1 - l\<^sup>2 / 6 + u ^ 4 / 120)"
proof -
  have x0: "0 \<le> x" using assms by linarith
  have a: "\<bar>sin x - (x - x ^ 3 / 6)\<bar> \<le> \<bar>x\<bar> ^ 5 / 120" by (rule sin_taylor5)
  have b: "\<bar>x\<bar> = x" using x0 by simp
  have t: "x - x ^ 3 / 6 - x ^ 5 / 120 \<le> 1 / 2" "1 / 2 \<le> x - x ^ 3 / 6 + x ^ 5 / 120"
    using a unfolding b assms(1) by linarith+
  have "x\<^sup>2 \<le> u\<^sup>2" "x ^ 4 \<le> u ^ 4" "l\<^sup>2 \<le> x\<^sup>2"
    using assms x0 by (simp_all add: power_mono)
  then have "x * x\<^sup>2 \<le> x * u\<^sup>2" "x * x ^ 4 \<le> x * u ^ 4" "x * l\<^sup>2 \<le> x * x\<^sup>2"
    using x0 by (simp_all add: mult_left_mono)
  moreover have "x * x\<^sup>2 = x ^ 3" "x * x ^ 4 = x ^ 5"
    by (simp_all add: power3_eq_cube power2_eq_square numeral_eq_Suc)
  ultimately have c: "x ^ 3 \<le> x * u\<^sup>2" "x ^ 5 \<le> x * u ^ 4" "x * l\<^sup>2 \<le> x ^ 3"
    by simp_all
  have "x * (1 - u\<^sup>2 / 6 - u ^ 4 / 120) = x - x * u\<^sup>2 / 6 - x * u ^ 4 / 120"
    by (simp add: algebra_simps)
  with t(1) c(1,2) show "x * (1 - u\<^sup>2 / 6 - u ^ 4 / 120) \<le> 1 / 2"
    by linarith
  have "x * (1 - l\<^sup>2 / 6 + u ^ 4 / 120) = x - x * l\<^sup>2 / 6 + x * u ^ 4 / 120"
    by (simp add: algebra_simps)
  with t(2) c(2,3) show "1 / 2 \<le> x * (1 - l\<^sup>2 / 6 + u ^ 4 / 120)"
    by linarith
qed

lemma pi_bounds: "3.14 \<le> pi" "pi \<le> 3.15"
proof -
  define x where "x = pi / 6"
  have s: "sin x = 1 / 2" by (simp add: x_def sin_30)
  have x0: "0 \<le> x" by (simp add: x_def)
  have z: "(0::real) \<le> 0" by simp
  have u0: "x \<le> 2 / 3" using pi_less_4 by (simp add: x_def)
  have u1: "x \<le> 0.541"
    using pi6_bounds_step(1) [OF s z x0 u0] by (simp add: power_divide)
  have u2: "x \<le> 0.5261"
    using pi6_bounds_step(1) [OF s z x0 u1] by (simp add: power_divide)
  have u3: "x \<le> 0.525"
    using pi6_bounds_step(1) [OF s z x0 u2] by (simp add: power_divide)
  have l1: "0.4996 \<le> x"
    using pi6_bounds_step(2) [OF s z x0 u3] by (simp add: power_divide)
  have l2: "0.5213 \<le> x"
    using pi6_bounds_step(2) [OF s _ l1 u3] by (simp add: power_divide)
  have l3: "0.5233 \<le> x"
    using pi6_bounds_step(2) [OF s _ l2 u3] by (simp add: power_divide)
  have l4: "0.5235 \<le> x"
    using pi6_bounds_step(2) [OF s _ l3 u3] by (simp add: power_divide)
  from l4 show "3.14 \<le> pi" by (simp add: x_def)
  from u3 show "pi \<le> 3.15" by (simp add: x_def)
qed


subsection \<open>Water pipe size\<close>

lemma friction_value:
  assumes "0 \<le> Q" "0 < d"
  shows "calculateFrictionLoss Q d len = Num (Math_round (friction_psi Q d * 100) / 100)"
  using assms
  by (simp add: calculateFrictionLoss_def friction_psi_def Math_pow_def Let_def)

lemma pipe_diameter_pos: "0 < w \<Longrightarrow> 0 < pipe_diameter w"
  using gpm_pos [of w] by (simp add: pipe_diameter_def)

lemma pipe_diameter_sq:
  "(pipe_diameter w)\<^sup>2 = fixtureUnitsToGPM w * (48 / 187) / pi"
proof -
  have "0 \<le> (4 * (fixtureUnitsToGPM w / (7.48 * 60) / 5)) / pi"
    using gpm_nonneg [of w] by simp
  then show ?thesis
    by (simp add: pipe_diameter_def power_mult_distrib)
qed

lemma pipe_finite:
  assumes "0 < w"
  shows "calculatePipeSize w len pa =
     (let sel = js_or (find (\<lambda>size. size \<ge> pipe_diameter w) pipe_standardSizes) 0.5
      in if Math_round (friction_psi (fixtureUnitsToGPM w) (pipe_diameter w) * 100) / 100 * len / 100
              > pa * 0.5
         then (let index = indexOf pipe_standardSizes sel
               in if index < 13 then pipe_standardSizes ! nat (index + 1) else sel)
         else sel)"
proof -
  have f: "calculateFrictionLoss (fixtureUnitsToGPM w) (pipe_diameter w) len =
      Num (Math_round (friction_psi (fixtureUnitsToGPM w) (pipe_diameter w) * 100) / 100)"
    using assms gpm_pos [of w] pipe_diameter_pos [of w] by (intro friction_value) simp_all
  have l: "int (length pipe_standardSizes) - 1 = 13" "pipe_standardSizes ! 0 = 0.5"
    by (simp_all add: pipe_standardSizes_def)
  show ?thesis
    unfolding calculatePipeSize_def Let_def pipe_diameter_def [symmetric] f l
    by simp
qed

lemma powr_487:
  fixes d :: real
  assumes "0 < d"
  shows "d powr 4.87 = (d\<^sup>2) powr 2.435"
proof -
  have "(d\<^sup>2) powr 2.435 = (d powr 2) powr 2.435"
    using assms by (simp add: powr_numeral)
  also have "\<dots> = d powr 4.87"
    by (simp add: powr_powr)
  finally show ?thesis by simp
qed

lemma friction_psi_scaled:
  assumes "0 < q" "0 < d"
  shows "friction_psi q d * 100 = 195.716 * ((q / 140) powr 1.85 / (d\<^sup>2) powr 2.435)"
proof -
  have "(q / 140) powr 1.85 = q powr 1.85 / 140 powr 1.85"
    using assms by (simp add: powr_divide)
  then show ?thesis
    unfolding friction_psi_def powr_487 [OF assms(2)] by simp
qed

lemma round_ge: "n - 1 / 2 \<le> x \<Longrightarrow> of_int n \<le> Math_round x" for n :: int
  by (simp add: Math_round_def le_floor_iff)

lemma round_le: "x < of_int n + 1 / 2 \<Longrightarrow> Math_round x \<le> of_int n" for n :: int
  by (simp add: Math_round_def floor_le_iff)

lemma powr_consts:
  "(0.0038::real) \<le> (1 / 20) powr 1.85"
  "(0.5723::real) powr 2.4 \<le> 0.27"
  "(3 / 40 :: real) powr 1.85 \<le> 0.0084"
  "(0.676::real) \<le> 0.8556 powr 2.5"
proof -
  show "(0.0038::real) \<le> (1 / 20) powr 1.85"
    using powr_ge_root [of "0.0038" "1 / 20" 20 37] by (simp add: power_divide)
  show "(0.5723::real) powr 2.4 \<le> 0.27"
    using powr_le_root [of "0.27" "0.5723" 5 12] by (simp add: power_divide)
  show "(3 / 40 :: real) powr 1.85 \<le> 0.0084"
    using powr_le_root [of "0.0084" "3 / 40" 20 37] by (simp add: power_divide)
  show "(0.676::real) \<le> 0.8556 powr 2.5"
    using powr_ge_root [of "0.676" "0.8556" 2 5] by (simp add: power_divide)
qed

lemma pipe_4: "calculatePipeSize 4 10000 5 = 1.25"
proof -
  define d where "d = pipe_diameter 4"
  have q: "fixtureUnitsToGPM 4 = 7" by (simp add: fixtureUnitsToGPM_def)
  have dpos: "0 < d" unfolding d_def by (rule pipe_diameter_pos) simp
  have dsq: "d\<^sup>2 = (336 / 187) / pi"
    unfolding d_def pipe_diameter_sq q by simp
  have lo: "0.5704 \<le> d\<^sup>2" and hi: "d\<^sup>2 \<le> 0.5723"
    unfolding dsq using pi_bounds by (simp_all add: field_simps)
  have "(0.75::real)\<^sup>2 < d\<^sup>2" using lo by (simp add: power2_eq_square)
  then have d1: "0.75 < d" by (rule power2_less_imp_less) (use dpos in simp)
  have "d\<^sup>2 \<le> 1\<^sup>2" using hi by simp
  then have d2: "d \<le> 1" by (rule power2_le_imp_le) simp
  have sel: "find (\<lambda>size. size \<ge> d) pipe_standardSizes = Some 1"
    using d1 d2 by (simp add: pipe_standardSizes_def)
  have "(d\<^sup>2) powr 2.435 \<le> (d\<^sup>2) powr 2.4"
    using hi by (auto intro: powr_mono')
  also have "\<dots> \<le> 0.5723 powr 2.4"
    using hi by (auto intro: powr_mono2)
  also have "\<dots> \<le> 0.27" by (rule powr_consts(2))
  finally have B: "(d\<^sup>2) powr 2.435 \<le> 0.27" .
  have B0: "0 < (d\<^sup>2) powr 2.435" using dpos by simp
  have A: "0.0038 \<le> (7 / 140 :: real) powr 1.85" using powr_consts(1) by simp
  have "0.0038 / 0.27 \<le> (7 / 140 :: real) powr 1.85 / (d\<^sup>2) powr 2.435"
    by (rule frac_le) (use A B B0 in simp_all)
  then have "195.716 * (0.0038 / 0.27)
             \<le> 195.716 * ((7 / 140 :: real) powr 1.85 / (d\<^sup>2) powr 2.435)"
    by (rule mult_left_mono) simp
  moreover have "friction_psi 7 d * 100
                 = 195.716 * ((7 / 140) powr 1.85 / (d\<^sup>2) powr 2.435)"
    by (rule friction_psi_scaled) (use dpos in simp_all)
  moreover have "(2.5::real) \<le> 195.716 * (0.0038 / 0.27)" by simp
  ultimately have "2.5 \<le> friction_psi 7 d * 100" by linarith
  then have "3 \<le> Math_round (friction_psi 7 d * 100)"
    using round_ge [of 3 "friction_psi 7 d * 100"] by simp
  then show ?thesis
    unfolding pipe_finite [of 4, simplified] Let_def q d_def [symmetric] sel
    by (simp add: js_or_def pipe_standardSizes_def)
qed

lemma pipe_million: "12 < pipe_diameter 1000000" "calculatePipeSize 1000000 0 50 = 0.5"
proof -
  define d where "d = pipe_diameter 1000000"
  have "(113::real) \<le> 1000000 powr 0.35"
    using powr_ge_root [of 113 1000000 20 7] by simp
  then have q: "2260 \<le> fixtureUnitsToGPM 1000000" by (simp add: fixtureUnitsToGPM_def)
  have "(12::real)\<^sup>2 < 2260 * (48 / 187) / 4" by simp
  also have "\<dots> \<le> fixtureUnitsToGPM 1000000 * (48 / 187) / 4"
    using q by simp
  also have "\<dots> \<le> fixtureUnitsToGPM 1000000 * (48 / 187) / pi"
    using q pi_less_4 by (intro divide_left_mono) simp_all
  finally have "(12::real)\<^sup>2 < d\<^sup>2"
    unfolding d_def pipe_diameter_sq .
  moreover have dpos: "0 < d" unfolding d_def by (rule pipe_diameter_pos) simp
  ultimately have d12: "12 < d" by (intro power2_less_imp_less [of 12 d]) simp_all
  then show "12 < pipe_diameter 1000000" by (simp add: d_def)
  have sel: "find (\<lambda>size. size \<ge> d) pipe_standardSizes = None"
    using d12 by (simp add: pipe_standardSizes_def)
  show "calculatePipeSize 1000000 0 50 = 0.5"
    unfolding pipe_finite [of 1000000, simplified] Let_def d_def [symmetric] sel
    by (simp add: js_or_def)
qed


lemma indexOf_ge: "- 1 \<le> indexOf xs x"
  by (induction xs) (auto simp: Let_def)

lemma pipe_in_ladder: "calculatePipeSize w len pa \<in> set pipe_standardSizes"
proof -
  define sel where
    "sel = js_or (find (\<lambda>size. size \<ge> pipe_diameter w) pipe_standardSizes) (pipe_standardSizes ! 0)"
  have sel: "sel \<in> set pipe_standardSizes"
  proof (cases "find (\<lambda>size. size \<ge> pipe_diameter w) pipe_standardSizes")
    case None
    then show ?thesis by (simp add: sel_def js_or_def pipe_standardSizes_def)
  next
    case (Some v)
    then have "v \<in> set pipe_standardSizes" by (rule find_in_set)
    moreover have "pipe_standardSizes ! 0 \<in> set pipe_standardSizes"
      by (simp add: pipe_standardSizes_def)
    ultimately show ?thesis using Some by (simp add: sel_def js_or_def)
  qed
  have nxt: "pipe_standardSizes ! nat (i + 1) \<in> set pipe_standardSizes"
    if "- 1 \<le> i" "i < int (length pipe_standardSizes) - 1" for i
    using that by (intro nth_mem) linarith
  show ?thesis
    unfolding calculatePipeSize_def Let_def pipe_diameter_def [symmetric] sel_def [symmetric]
    using sel nxt [OF indexOf_ge [of pipe_standardSizes sel]] by simp
qed

lemma gpm_mono: "x \<le> y \<Longrightarrow> fixtureUnitsToGPM x \<le> fixtureUnitsToGPM y"
proof -
  assume xy: "x \<le> y"
  consider "x \<le> 0" | "0 < x" "x = y" | "0 < x" "x < y" using xy by linarith
  then show ?thesis
  proof cases
    case 1
    then have "fixtureUnitsToGPM x = 0" by (simp add: fixtureUnitsToGPM_def)
    then show ?thesis using gpm_nonneg [of y] by simp
  next
    case 2
    then show ?thesis by simp
  next
    case 3
    then show ?thesis using gpm_strict_mono [of x y] by simp
  qed
qed

lemma pipe_diameter_mono: "x \<le> y \<Longrightarrow> pipe_diameter x \<le> pipe_diameter y"
  using gpm_mono [of x y] by (simp add: pipe_diameter_def divide_right_mono)

lemma pipe_no_length:
  assumes "0 \<le> pa"
  shows "calculatePipeSize w 0 pa =
           js_or (find (\<lambda>size. size \<ge> pipe_diameter w) pipe_standardSizes) 0.5"
proof -
  have "\<not> js_gt (js_div (js_mul f (Num 0)) (Num 100)) (Num (pa * 0.5))" for f
    using assms by (cases f) (simp_all add: signed_inf_def)
  then show ?thesis
    unfolding calculatePipeSize_def Let_def pipe_diameter_def [symmetric]
    by (simp add: pipe_standardSizes_def)
qed

lemma pipe_select_in_range:
  assumes "d \<le> 12"
  shows "js_or (find (\<lambda>size. size \<ge> d) pipe_standardSizes) 0.5
         = (case find (\<lambda>size. size \<ge> d) pipe_standardSizes of None \<Rightarrow> 12 | Some v \<Rightarrow> v)"
proof -
  have "0 \<notin> set pipe_standardSizes" by (simp add: pipe_standardSizes_def)
  moreover have "12 \<in> set pipe_standardSizes" by (simp add: pipe_standardSizes_def)
  then have "find (\<lambda>size. size \<ge> d) pipe_standardSizes \<noteq> None"
    unfolding find_None_iff using assms by blast
  ultimately show ?thesis
    by (cases "find (\<lambda>size. size \<ge> d) pipe_standardSizes") (auto simp: js_or_def dest: find_in_set)
qed

lemma pipe_static_mono:
  assumes "w1 \<le> w2" "pipe_diameter w2 \<le> 12" "0 \<le> pa"
  shows "calculatePipeSize w1 0 pa \<le> calculatePipeSize w2 0 pa"
proof -
  have d: "pipe_diameter w1 \<le> pipe_diameter w2" using assms(1) by (rule pipe_diameter_mono)
  then have d1: "pipe_diameter w1 \<le> 12" using assms(2) by linarith
  have s: "sorted pipe_standardSizes" by (simp add: pipe_standardSizes_def)
  have u: "\<forall>x\<in>set pipe_standardSizes. x \<le> 12" by (simp add: pipe_standardSizes_def)
  show ?thesis
    unfolding pipe_no_length [OF assms(3)] pipe_select_in_range [OF d1]
      pipe_select_in_range [OF assms(2)]
    by (rule find_threshold_mono [OF s d u])
qed


lemma pipe_parts:
  "calculatePipeSize w len pa =
     (if pipe_loss_exceeded w len pa then next_pipe_size (pipe_selected w) else pipe_selected w)"
  by (simp add: calculatePipeSize_def pipe_loss_exceeded_def next_pipe_size_def pipe_selected_def
      pipe_diameter_def Let_def)

lemma pipe_selected_in_ladder: "pipe_selected w \<in> set pipe_standardSizes"
proof (cases "find (\<lambda>size. size \<ge> pipe_diameter w) pipe_standardSizes")
  case None
  then show ?thesis by (simp add: pipe_selected_def js_or_def pipe_standardSizes_def)
next
  case (Some v)
  then have "v \<in> set pipe_standardSizes" by (rule find_in_set)
  moreover have "pipe_standardSizes ! 0 \<in> set pipe_standardSizes"
    by (simp add: pipe_standardSizes_def)
  ultimately show ?thesis using Some by (simp add: pipe_selected_def js_or_def)
qed

lemma pipe_selected_mono:
  assumes "w1 \<le> w2" "pipe_diameter w2 \<le> 12"
  shows "pipe_selected w1 \<le> pipe_selected w2"
proof -
  have d: "pipe_diameter w1 \<le> pipe_diameter w2" using assms(1) by (rule pipe_diameter_mono)
  then have d1: "pipe_diameter w1 \<le> 12" using assms(2) by linarith
  have s: "sorted pipe_standardSizes" by (simp add: pipe_standardSizes_def)
  have u: "\<forall>x\<in>set pipe_standardSizes. x \<le> 12" by (simp add: pipe_standardSizes_def)
  have z: "pipe_standardSizes ! 0 = 0.5" by (simp add: pipe_standardSizes_def)
  show ?thesis
    unfolding pipe_selected_def z pipe_select_in_range [OF d1] pipe_select_in_range [OF assms(2)]
    by (rule find_threshold_mono [OF s d u])
qed

lemma indexOf_nth:
  assumes "distinct xs" "i < length xs"
  shows "indexOf xs (xs ! i) = int i"
  using assms
proof (induction xs arbitrary: i)
  case Nil
  then show ?case by simp
next
  case (Cons x xs)
  show ?case
  proof (cases i)
    case 0
    then show ?thesis by simp
  next
    case (Suc j)
    with Cons.prems have j: "j < length xs" and d: "distinct xs" and n: "x \<noteq> xs ! j"
      by auto
    from Cons.IH [OF d j] n Suc show ?thesis by (simp add: Let_def)
  qed
qed

lemma next_pipe_size_nth:
  assumes "i < length pipe_standardSizes"
  shows "next_pipe_size (pipe_standardSizes ! i)
         = pipe_standardSizes ! min (Suc i) (length pipe_standardSizes - 1)"
proof -
  have "distinct pipe_standardSizes" by (simp add: pipe_standardSizes_def)
  then have "indexOf pipe_standardSizes (pipe_standardSizes ! i) = int i"
    using assms by (rule indexOf_nth)
  then have ix: "indexOf pipe_standardSizes (pipe_standardSizes ! i) = int i" .
  show ?thesis
  proof (cases "Suc i < length pipe_standardSizes")
    case True
    then have "min (Suc i) (length pipe_standardSizes - 1) = Suc i" by simp
    moreover have "nat (int i + 1) = Suc i" by simp
    ultimately show ?thesis
      using True by (simp add: next_pipe_size_def Let_def ix)
  next
    case False
    with assms have "i = length pipe_standardSizes - 1" by simp
    then have "min (Suc i) (length pipe_standardSizes - 1) = i" by simp
    then show ?thesis
      using False by (simp add: next_pipe_size_def Let_def ix)
  qed
qed

lemma next_pipe_size_ge:
  assumes "s \<in> set pipe_standardSizes"
  shows "s \<le> next_pipe_size s"
proof -
  from assms obtain i where i: "i < length pipe_standardSizes" "s = pipe_standardSizes ! i"
    by (auto simp: in_set_conv_nth)
  have "sorted pipe_standardSizes" by (simp add: pipe_standardSizes_def)
  then have "pipe_standardSizes ! i
             \<le> pipe_standardSizes ! min (Suc i) (length pipe_standardSizes - 1)"
    using i(1) by (intro sorted_nth_mono) auto
  then show ?thesis by (simp add: i next_pipe_size_nth)
qed

lemma next_pipe_size_le:
  assumes "s1 \<in> set pipe_standardSizes" "s2 \<in> set pipe_standardSizes" "s1 < s2"
  shows "next_pipe_size s1 \<le> s2"
proof -
  from assms obtain i j where i: "i < length pipe_standardSizes" "s1 = pipe_standardSizes ! i"
    and j: "j < length pipe_standardSizes" "s2 = pipe_standardSizes ! j"
    by (auto simp: in_set_conv_nth)
  have s: "sorted pipe_standardSizes" by (simp add: pipe_standardSizes_def)
  have "i < j"
  proof (rule ccontr)
    assume "\<not> i < j"
    then have "pipe_standardSizes ! j \<le> pipe_standardSizes ! i"
      using s i(1) by (intro sorted_nth_mono) auto
    with assms(3) i(2) j(2) show False by simp
  qed
  then have "pipe_standardSizes ! min (Suc i) (length pipe_standardSizes - 1)
             \<le> pipe_standardSizes ! j"
    using s j(1) by (intro sorted_nth_mono) auto
  then show ?thesis by (simp add: i j next_pipe_size_nth)
qed

lemma next_pipe_size_mono:
  assumes "s1 \<in> set pipe_standardSizes" "s2 \<in> set pipe_standardSizes" "s1 \<le> s2"
  shows "next_pipe_size s1 \<le> next_pipe_size s2"
proof (cases "s1 = s2")
  case True
  then show ?thesis by simp
next
  case False
  with assms(3) have "s1 < s2" by simp
  with assms(1,2) have "next_pipe_size s1 \<le> s2" by (rule next_pipe_size_le)
  also have "\<dots> \<le> next_pipe_size s2" using assms(2) by (rule next_pipe_size_ge)
  finally show ?thesis .
qed

lemma pipe_mono:
  assumes "w1 \<le> w2" "pipe_diameter w2 \<le> 12"
    and "\<not> (pipe_loss_exceeded w1 len pa \<and> \<not> pipe_loss_exceeded w2 len pa
            \<and> pipe_selected w1 = pipe_selected w2)"
  shows "calculatePipeSize w1 len pa \<le> calculatePipeSize w2 len pa"
proof -
  have m: "pipe_selected w1 \<le> pipe_selected w2" using assms(1,2) by (rule pipe_selected_mono)
  note l1 = pipe_selected_in_ladder [of w1] and l2 = pipe_selected_in_ladder [of w2]
  show ?thesis
  proof (cases "pipe_loss_exceeded w1 len pa")
    case False
    then show ?thesis
      using m next_pipe_size_ge [OF l2] by (auto simp: pipe_parts)
  next
    case e1: True
    show ?thesis
    proof (cases "pipe_loss_exceeded w2 len pa")
      case True
      with e1 show ?thesis using next_pipe_size_mono [OF l1 l2 m] by (simp add: pipe_parts)
    next
      case False
      with e1 assms(3) m have "pipe_selected w1 < pipe_selected w2" by auto
      then show ?thesis
        using e1 False next_pipe_size_le [OF l1 l2] by (simp add: pipe_parts)
    qed
  qed
qed


lemma pipe_loss_finite:
  assumes "0 < w"
  shows "pipe_loss_exceeded w len pa
         = (Math_round (friction_psi (fixtureUnitsToGPM w) (pipe_diameter w) * 100) / 100
              * len / 100 > pa * 0.5)"
proof -
  have "calculateFrictionLoss (fixtureUnitsToGPM w) (pipe_diameter w) len =
      Num (Math_round (friction_psi (fixtureUnitsToGPM w) (pipe_diameter w) * 100) / 100)"
    using assms gpm_pos [of w] pipe_diameter_pos [of w] by (intro friction_value) simp_all
  then show ?thesis by (simp add: pipe_loss_exceeded_def)
qed

lemma pipe_9_parts:
  "fixtureUnitsToGPM 9 = 10.5"
  "pipe_selected 9 = 1"
  "Math_round (friction_psi 10.5 (pipe_diameter 9) * 100) \<le> 2"
proof -
  define d where "d = pipe_diameter 9"
  have "sqrt (9::real) = 3" by (rule real_sqrt_unique) simp_all
  then show q: "fixtureUnitsToGPM 9 = 10.5" by (simp add: fixtureUnitsToGPM_def)
  have dpos: "0 < d" unfolding d_def by (rule pipe_diameter_pos) simp
  have dsq: "d\<^sup>2 = (504 / 187) / pi"
    unfolding d_def pipe_diameter_sq q by simp
  have lo: "0.8556 \<le> d\<^sup>2" and hi: "d\<^sup>2 \<le> 0.8584"
    unfolding dsq using pi_bounds by (simp_all add: field_simps)
  have "(0.75::real)\<^sup>2 < d\<^sup>2" using lo by (simp add: power2_eq_square)
  then have d1: "0.75 < d" by (rule power2_less_imp_less) (use dpos in simp)
  have "d\<^sup>2 \<le> 1\<^sup>2" using hi by simp
  then have d2: "d \<le> 1" by (rule power2_le_imp_le) simp
  have "find (\<lambda>size. size \<ge> d) pipe_standardSizes = Some 1"
    using d1 d2 by (simp add: pipe_standardSizes_def)
  then show "pipe_selected 9 = 1"
    by (simp add: pipe_selected_def d_def [symmetric] js_or_def)
  have "0.676 \<le> (0.8556::real) powr 2.5" by (rule powr_consts(4))
  also have "\<dots> \<le> (d\<^sup>2) powr 2.5"
    using lo by (auto intro: powr_mono2)
  also have "\<dots> \<le> (d\<^sup>2) powr 2.435"
    using hi by (auto intro: powr_mono')
  finally have B: "0.676 \<le> (d\<^sup>2) powr 2.435" .
  have A: "(10.5 / 140 :: real) powr 1.85 \<le> 0.0084" using powr_consts(3) by simp
  have "(10.5 / 140 :: real) powr 1.85 / (d\<^sup>2) powr 2.435 \<le> 0.0084 / 0.676"
    by (rule frac_le) (use A B in simp_all)
  then have "195.716 * ((10.5 / 140 :: real) powr 1.85 / (d\<^sup>2) powr 2.435)
             \<le> 195.716 * (0.0084 / 0.676)"
    by (rule mult_left_mono) simp
  moreover have "friction_psi 10.5 d * 100
                 = 195.716 * ((10.5 / 140) powr 1.85 / (d\<^sup>2) powr 2.435)"
    by (rule friction_psi_scaled) (use dpos in simp_all)
  moreover have "195.716 * (0.0084 / 0.676) < (2.5::real)" by simp
  ultimately have "friction_psi 10.5 d * 100 < 2.5" by linarith
  then show "Math_round (friction_psi 10.5 (pipe_diameter 9) * 100) \<le> 2"
    using round_le [of "friction_psi 10.5 d * 100" 2] by (simp add: d_def)
qed

lemma pipe_9_any:
  assumes "2 / 100 * len / 100 \<le> pa * 0.5" "0 \<le> len"
  shows "\<not> pipe_loss_exceeded 9 len pa" "calculatePipeSize 9 len pa = 1"
proof -
  define r where "r = Math_round (friction_psi 10.5 (pipe_diameter 9) * 100)"
  have "r \<le> 2" unfolding r_def by (rule pipe_9_parts(3))
  then have m: "r * len \<le> 2 * len" using assms(2) by (rule mult_right_mono)
  have "(0::real) < 9" by simp
  then have e: "pipe_loss_exceeded 9 len pa = (r / 100 * len / 100 > pa * 0.5)"
    unfolding r_def pipe_9_parts(1) [symmetric] by (rule pipe_loss_finite)
  have "r / 100 * len / 100 = (r * len) / 10000" by simp
  with m assms(1) have "\<not> r / 100 * len / 100 > pa * 0.5" by linarith
  with e have ne: "\<not> pipe_loss_exceeded 9 len pa" by blast
  then show "\<not> pipe_loss_exceeded 9 len pa" .
  from ne show "calculatePipeSize 9 len pa = 1" by (simp add: pipe_parts pipe_9_parts(2))
qed

lemma pipe_1_parts:
  "fixtureUnitsToGPM 1 = 3.5"
  "pipe_selected 1 = 0.75"
  "Math_round (friction_psi 3.5 (pipe_diameter 1) * 100) \<le> 223"
proof -
  define d where "d = pipe_diameter 1"
  show q: "fixtureUnitsToGPM 1 = 3.5" by (simp add: fixtureUnitsToGPM_def)
  have dpos: "0 < d" unfolding d_def by (rule pipe_diameter_pos) simp
  have dsq: "d\<^sup>2 = (168 / 187) / pi"
    unfolding d_def pipe_diameter_sq q by simp
  have lo: "0.28 \<le> d\<^sup>2" and hi: "d\<^sup>2 \<le> 0.29"
    unfolding dsq using pi_bounds by (simp_all add: field_simps)
  have "(0.5::real)\<^sup>2 < d\<^sup>2" using lo by (simp add: power2_eq_square)
  then have d1: "0.5 < d" by (rule power2_less_imp_less) (use dpos in simp)
  have "d\<^sup>2 \<le> (0.75::real)\<^sup>2" using hi by (simp add: power2_eq_square)
  then have d2: "d \<le> 0.75" by (rule power2_le_imp_le) simp
  have "find (\<lambda>size. size \<ge> d) pipe_standardSizes = Some 0.75"
    using d1 d2 by (simp add: pipe_standardSizes_def)
  then show "pipe_selected 1 = 0.75"
    by (simp add: pipe_selected_def d_def [symmetric] js_or_def)
  have p3: "(d\<^sup>2) powr 3 \<le> (d\<^sup>2) powr 2.435"
    by (rule powr_mono') (use hi in simp_all)
  have "(0.28::real) ^ 3 \<le> (d\<^sup>2) ^ 3"
    using lo by (rule power_mono) simp
  moreover have "(d\<^sup>2) ^ 3 = (d\<^sup>2) powr 3"
    using dpos by (simp add: powr_numeral)
  moreover have "(0.28::real) ^ 3 = 0.021952" by (simp add: power_divide)
  ultimately have B: "0.021952 \<le> (d\<^sup>2) powr 2.435" using p3 by linarith
  have "(3.5 / 140 :: real) powr 1.85 \<le> (3.5 / 140) powr 1"
    by (rule powr_mono') simp_all
  then have A: "(3.5 / 140 :: real) powr 1.85 \<le> 0.025" by simp
  have "(3.5 / 140 :: real) powr 1.85 / (d\<^sup>2) powr 2.435 \<le> 0.025 / 0.021952"
    by (rule frac_le) (use A B in simp_all)
  then have "195.716 * ((3.5 / 140 :: real) powr 1.85 / (d\<^sup>2) powr 2.435)
             \<le> 195.716 * (0.025 / 0.021952)"
    by (rule mult_left_mono) simp
  moreover have "friction_psi 3.5 d * 100
                 = 195.716 * ((3.5 / 140) powr 1.85 / (d\<^sup>2) powr 2.435)"
    by (rule friction_psi_scaled) (use dpos in simp_all)
  moreover have "195.716 * (0.025 / 0.021952) < (223.5::real)" by simp
  ultimately have "friction_psi 3.5 d * 100 < 223.5" by linarith
  then show "Math_round (friction_psi 3.5 (pipe_diameter 1) * 100) \<le> 223"
    using round_le [of "friction_psi 3.5 d * 100" 223] by (simp add: d_def)
qed

lemma pipe_1_any:
  assumes "223 / 100 * len / 100 \<le> pa * 0.5" "0 \<le> len"
  shows "\<not> pipe_loss_exceeded 1 len pa" "calculatePipeSize 1 len pa = 0.75"
proof -
  define r where "r = Math_round (friction_psi 3.5 (pipe_diameter 1) * 100)"
  have "r \<le> 223" unfolding r_def by (rule pipe_1_parts(3))
  then have m: "r * len \<le> 223 * len" using assms(2) by (rule mult_right_mono)
  have "(0::real) < 1" by simp
  then have e: "pipe_loss_exceeded 1 len pa = (r / 100 * len / 100 > pa * 0.5)"
    unfolding r_def pipe_1_parts(1) [symmetric] by (rule pipe_loss_finite)
  have "r / 100 * len / 100 = (r * len) / 10000" by simp
  with m assms(1) have "\<not> r / 100 * len / 100 > pa * 0.5" by linarith
  with e have ne: "\<not> pipe_loss_exceeded 1 len pa" by blast
  then show "\<not> pipe_loss_exceeded 1 len pa" .
  from ne show "calculatePipeSize 1 len pa = 0.75" by (simp add: pipe_parts pipe_1_parts(2))
qed

lemma pipe_9: "calculatePipeSize 9 10000 5 = 1"
  by (rule pipe_9_any(2)) simp_all

lemma pipe_diameter_small:
  assumes "w \<le> 200"
  shows "pipe_diameter w \<le> 12"
proof -
  have "fixtureUnitsToGPM w * (48 / 187) / pi \<le> 120 * (48 / 187) / pi"
    using gpm_upper(3) [OF assms] by (simp add: divide_right_mono)
  also have "\<dots> \<le> 120 * (48 / 187) / 2"
    using pi_ge_two by (intro divide_left_mono) simp_all
  also have "\<dots> \<le> 12\<^sup>2" by simp
  finally have "(pipe_diameter w)\<^sup>2 \<le> 12\<^sup>2" unfolding pipe_diameter_sq .
  then show ?thesis by (rule power2_le_imp_le) simp
qed

lemma drain_exhaustion:
  assumes "0 < slope" "3900 < d / sqrt (slope / 0.25)"
  shows "calculateDrainPipeSize d slope = 12"
  using assms(2) unfolding drain_positive_slope [OF assms(1)] Let_def
  by (simp del: real_sqrt_eq_zero_cancel_iff)

text \<open>
  C1: the water pipe ladder ends at 12 inches. A million fixture units need a diameter
  above 12 inches, and \<^verbatim>\<open>calculatePipeSize\<close> then returns the first entry of its
  ladder, 0.5 inches, where the breaker, wire and drain lookups return their last one.
\<close>

theorem pipe_ladder_exhaustion:
  "12 < pipe_diameter 1000000
   \<and> calculatePipeSize 1000000 0 50 = 0.5
   \<and> last pipe_standardSizes = 12
   \<and> calculateBreakerSize 2000 True = 1200
   \<and> calculateWireSize 1000 ''copper'' 75 = ''1000 kcmil''
   \<and> calculateDrainPipeSize 5000 0.25 = 12"
proof -
  have "last pipe_standardSizes = 12" by (simp add: pipe_standardSizes_def)
  moreover have "calculateBreakerSize 2000 True = 1200"
    by (rule breaker_exhaustion) simp
  moreover have "calculateWireSize 1000 ''copper'' 75 = ''1000 kcmil''"
    by (rule wire_exhaustion) (simp add: tempFactors_def js_or_def)
  moreover have "calculateDrainPipeSize 5000 0.25 = 12"
    by (rule drain_exhaustion) simp_all
  ultimately show ?thesis using pipe_million by simp
qed

text \<open>
  C3, as stated, fails for the water pipe: over 10000 feet with 5 PSI available, 4 fixture
  units get the 1.25 inch pipe and 9 fixture units the 1 inch pipe, since the friction at the
  computed diameter falls as the flow grows and the step to the next size is taken at 4
  and not at 9.
\<close>

theorem ladder_monotone_counterexample:
  "(4::real) \<le> 9
   \<and> calculatePipeSize 4 10000 5 = 1.25
   \<and> calculatePipeSize 9 10000 5 = 1
   \<and> \<not> calculatePipeSize 4 10000 5 \<le> calculatePipeSize 9 10000 5"
  by (simp add: pipe_4 pipe_9)

text \<open>
  C3, amended: the breaker size, the wire size (ordered by its position in the wire
  ladder) and the drain pipe size do not decrease when the current or the drainage load
  grows. The water pipe size does not decrease when the fixture units grow, at any length
  and available pressure, as long as the diameter required stays within the ladder,
  except when the smaller load takes the step to the next size for its pressure loss and
  the larger load, selected at the same size, does not. All four return an entry of their
  ladder.
\<close>

theorem ladder_monotone_amended:
  "(c1 \<le> c2 \<longrightarrow> calculateBreakerSize c1 b \<le> calculateBreakerSize c2 b)
   \<and> calculateBreakerSize c1 b \<in> set breaker_standardSizes
   \<and> (c1 \<le> c2 \<longrightarrow> wire_ladder_position (calculateWireSize c1 m t)
                      \<le> wire_ladder_position (calculateWireSize c2 m t))
   \<and> sizeKey (calculateWireSize c1 m t) \<in> set wire_ladder
   \<and> (d1 \<le> d2 \<longrightarrow> calculateDrainPipeSize d1 slope \<le> calculateDrainPipeSize d2 slope)
   \<and> calculateDrainPipeSize d1 slope \<in> set (map pipe_size drainCapacities)
   \<and> (w1 \<le> w2 \<and> pipe_diameter w2 \<le> 12
        \<and> \<not> (pipe_loss_exceeded w1 len pa \<and> \<not> pipe_loss_exceeded w2 len pa
                \<and> pipe_selected w1 = pipe_selected w2)
        \<longrightarrow> calculatePipeSize w1 len pa \<le> calculatePipeSize w2 len pa)
   \<and> calculatePipeSize w1 len pa
       = (if pipe_loss_exceeded w1 len pa then next_pipe_size (pipe_selected w1)
          else pipe_selected w1)
   \<and> calculatePipeSize w1 len pa \<in> set pipe_standardSizes"
  using breaker_mono [of c1 c2 b] breaker_in_ladder [of c1 b]
    wire_mono [of c1 c2 m t] wire_in_ladder [of c1 m t]
    drain_mono [of d1 d2 slope] drain_in_ladder [of d1 slope]
    pipe_mono [of w1 w2 len pa] pipe_parts [of w1 len pa] pipe_in_ladder [of w1 len pa]
  by blast

theorem ladder_monotone_amended_witness:
  "calculateBreakerSize 10 True = 15 \<and> calculateBreakerSize 100 True = 125
   \<and> calculateBreakerSize 10 True \<le> calculateBreakerSize 100 True
   \<and> calculateWireSize 10 ''copper'' 75 = ''1 AWG''
   \<and> calculateWireSize 150 ''copper'' 75 = ''250 AWG''
   \<and> wire_ladder_position ''1 AWG'' = 8 \<and> wire_ladder_position ''250 AWG'' = 13
   \<and> wire_ladder_position (calculateWireSize 10 ''copper'' 75)
       \<le> wire_ladder_position (calculateWireSize 150 ''copper'' 75)
   \<and> calculateDrainPipeSize 5 0.25 = 2 \<and> calculateDrainPipeSize 100 0.25 = 4
   \<and> calculateDrainPipeSize 5 0.25 \<le> calculateDrainPipeSize 100 0.25
   \<and> calculatePipeSize 1 120 50 = 0.75 \<and> calculatePipeSize 9 120 50 = 1
   \<and> calculatePipeSize 1 120 50 \<le> calculatePipeSize 9 120 50"
proof -
  have b: "calculateBreakerSize 10 True = 15" "calculateBreakerSize 100 True = 125"
    by (simp_all add: breaker_unfold breaker_standardSizes_def)
  have w: "calculateWireSize 10 ''copper'' 75 = ''1 AWG''"
    "calculateWireSize 150 ''copper'' 75 = ''250 AWG''"
    unfolding wire_unfold by (simp_all add: copper_select [of 1] tempFactors_def js_or_def)
  have d: "calculateDrainPipeSize 5 0.25 = 2" "calculateDrainPipeSize 100 0.25 = 4"
    by (simp_all add: drain_positive_slope)
  have p: "\<not> pipe_loss_exceeded 1 120 50" "calculatePipeSize 1 120 50 = 0.75"
    "calculatePipeSize 9 120 50 = 1"
    by (simp_all add: pipe_1_any pipe_9_any)
  have "pipe_diameter 9 \<le> 12" by (rule pipe_diameter_small) simp
  with p(1) have "calculatePipeSize 1 120 50 \<le> calculatePipeSize 9 120 50"
    using ladder_monotone_amended [of 10 150 True "''copper''" 75 5 100 "0.25" 1 9 120 50]
    by simp
  moreover have "calculateBreakerSize 10 True \<le> calculateBreakerSize 100 True"
    using ladder_monotone_amended [of 10 100 True "''copper''" 75 5 100 "0.25" 1 9 120 50]
    by simp
  moreover have "wire_ladder_position (calculateWireSize 10 ''copper'' 75)
       \<le> wire_ladder_position (calculateWireSize 150 ''copper'' 75)"
    using ladder_monotone_amended [of 10 150 True "''copper''" 75 5 100 "0.25" 1 9 120 50]
    by simp
  moreover have "calculateDrainPipeSize 5 0.25 \<le> calculateDrainPipeSize 100 0.25"
    using ladder_monotone_amended [of 10 150 True "''copper''" 75 5 100 "0.25" 1 9 120 50]
    by simp
  ultimately show ?thesis
    using b w d p(2,3) wire_positions(1,2) by simp
qed

end
